theory Spec2Isabelle
  imports Main "HOL-Library.Sublist"
begin

section \<open>Data model\<close>

text \<open>
  Service descriptors are JavaScript objects that are shared by reference: the catalog
  holds references, the module-level \<open>noOpService\<close> is one object, and
  \<open>_.cloneDeep\<close> allocates a new one. Objects therefore live in a store and the
  candidate lists are lists of references.
\<close>

type_synonym ref = nat

record Source =
  collection :: string
  variables :: "string list option"

text \<open>
  The request. Optional properties are \<open>option\<close>s; only the presence of the bounding
  rectangle matters to this module (an array is truthy even when empty).
\<close>

record DataOperation =
  sources :: "Source list"
  boundingRectangle :: "int list option"
  geojson :: "string option"
  crs :: "string option"
  outputFormat :: "string option"

record RequestContext =
  requestedMimeTypes :: "string list option"

text \<open>
  The service configuration. The nested paths \<open>capabilities.output_formats\<close>,
  \<open>capabilities.subsetting.variable\<close>, \<open>capabilities.subsetting.bbox\<close>,
  \<open>capabilities.subsetting.shape\<close> and \<open>capabilities.reprojection\<close> are read through
  lodash \<open>get\<close> with a default only, so each path is one optional field: \<open>None\<close> when
  any object on the path is missing. Catalog entries are taken to have their
  \<open>collections\<close>. The properties this module never reads (the type's parameters, the
  granule limits) are left out.
\<close>

record ServiceConfig =
  name :: string
  type_name :: string
  collections :: "string list"
  output_formats :: "string list option"
  subsetting_variable :: "bool option"
  subsetting_bbox :: "bool option"
  subsetting_shape :: "bool option"
  reprojection :: "bool option"
  message :: "string option"

record store =
  heap :: "ref \<Rightarrow> ServiceConfig"
  nextRef :: ref

datatype Conjuction = AND | OR

text \<open>
  The functions imported from \<open>util/content-negotiation\<close> and \<open>util/string\<close>. Their
  code is not part of the sources at hand, so they are parameters of the model.
  \<open>listToText items\<close> with one argument is \<open>listToText items AND\<close>.
\<close>

record deps =
  isMimeTypeAccepted :: "string \<Rightarrow> string \<Rightarrow> bool"
  allowsAny :: "string \<Rightarrow> bool"
  listToText :: "string list \<Rightarrow> Conjuction \<Rightarrow> string"

record UnsupportedOperation =
  operation :: DataOperation
  requestedOperations :: "string list"
  errorMessage :: string

datatype error = TypeError

section \<open>JavaScript helpers\<close>

text \<open>Truthiness of an optional string: \<open>undefined\<close> and the empty string are falsy.\<close>

definition truthy :: "string option \<Rightarrow> bool" where
  "truthy v = (case v of None \<Rightarrow> False | Some s \<Rightarrow> s \<noteq> [])"

text \<open>lodash \<open>get(object, path, default)\<close>: the default replaces an undefined value.\<close>

definition getIn :: "'a option \<Rightarrow> 'a \<Rightarrow> 'a" where
  "getIn v dflt = (case v of None \<Rightarrow> dflt | Some x \<Rightarrow> x)"

text \<open>\<open>xs[0]\<close>: \<open>undefined\<close> on an empty array.\<close>

definition first :: "'a list \<Rightarrow> 'a option" where
  "first xs = (case xs of [] \<Rightarrow> None | x # _ \<Rightarrow> Some x)"

definition newUnsupportedOperation :: "DataOperation \<Rightarrow> string list \<Rightarrow> UnsupportedOperation" where
  "newUnsupportedOperation op ros =
     \<lparr>operation = op, requestedOperations = ros, errorMessage = ''Unsupported Operation''\<rparr>"

section \<open>Capability predicates\<close>

definition isCollectionMatch :: "DataOperation \<Rightarrow> ServiceConfig \<Rightarrow> bool" where
  "isCollectionMatch op serviceConfig =
     list_all (\<lambda>source. collection source \<in> set (collections serviceConfig)) (sources op)"

definition selectServicesForFormat ::
  "deps \<Rightarrow> (ref \<Rightarrow> ServiceConfig) \<Rightarrow> string \<Rightarrow> ref list \<Rightarrow> ref list" where
  "selectServicesForFormat d h format configs =
     filter (\<lambda>config.
        let supportedFormats = getIn (output_formats (h config)) []
        in truthy (find (\<lambda>f. isMimeTypeAccepted d f format) supportedFormats)) configs"

text \<open>
  The \<open>for\<close> loop of \<open>selectFormat\<close> over the requested mime types; \<open>outputFormat\<close> is
  the loop's variable (\<open>fmt\<close> here), and the loop breaks as soon as it is truthy.
\<close>

fun selectFormatLoop ::
  "deps \<Rightarrow> (ref \<Rightarrow> ServiceConfig) \<Rightarrow> string list \<Rightarrow> ref list \<Rightarrow> string option \<Rightarrow> string option" where
  "selectFormatLoop d h [] configs fmt = fmt"
| "selectFormatLoop d h (mimeType # rest) configs fmt =
     (let services = selectServicesForFormat d h mimeType configs;
          fmt' =
            (if length services > 0
             then find (\<lambda>f. isMimeTypeAccepted d f mimeType)
                    (getIn (output_formats (h (hd services))) [])
             else fmt)
      in if truthy fmt' then fmt'
         else selectFormatLoop d h rest configs fmt')"

definition selectFormat ::
  "deps \<Rightarrow> (ref \<Rightarrow> ServiceConfig) \<Rightarrow> DataOperation \<Rightarrow> RequestContext \<Rightarrow> ref list \<Rightarrow> string option" where
  "selectFormat d h op context configs =
     (if \<not> truthy (outputFormat op)
         \<and> (case requestedMimeTypes context of None \<Rightarrow> False | Some ms \<Rightarrow> length ms > 0)
      then selectFormatLoop d h (getIn (requestedMimeTypes context) []) configs (outputFormat op)
      else outputFormat op)"

definition requiresReformatting :: "deps \<Rightarrow> DataOperation \<Rightarrow> RequestContext \<Rightarrow> bool" where
  "requiresReformatting d op context =
     (if truthy (outputFormat op) then True
      else case requestedMimeTypes context of
             None \<Rightarrow> False
           | Some ms \<Rightarrow>
               if length ms > 0
               then (let anyMimeTypes = filter (\<lambda>m. allowsAny d m) ms
                     in if length anyMimeTypes = 0 then True else False)
               else False)"

definition requiresVariableSubsetting :: "DataOperation \<Rightarrow> bool" where
  "requiresVariableSubsetting op =
     (let varSources =
            filter (\<lambda>s. case variables s of None \<Rightarrow> False | Some vs \<Rightarrow> length vs > 0) (sources op)
      in length varSources > 0)"

definition supportsVariableSubsetting :: "(ref \<Rightarrow> ServiceConfig) \<Rightarrow> ref list \<Rightarrow> ref list" where
  "supportsVariableSubsetting h configs =
     filter (\<lambda>config. getIn (subsetting_variable (h config)) False) configs"

definition requiresSpatialSubsetting :: "DataOperation \<Rightarrow> bool" where
  "requiresSpatialSubsetting op = (boundingRectangle op \<noteq> None)"

definition supportsSpatialSubsetting :: "(ref \<Rightarrow> ServiceConfig) \<Rightarrow> ref list \<Rightarrow> ref list" where
  "supportsSpatialSubsetting h configs =
     filter (\<lambda>config. getIn (subsetting_bbox (h config)) False) configs"

definition requiresReprojection :: "DataOperation \<Rightarrow> bool" where
  "requiresReprojection op = truthy (crs op)"

definition supportsReprojection :: "(ref \<Rightarrow> ServiceConfig) \<Rightarrow> ref list \<Rightarrow> ref list" where
  "supportsReprojection h configs =
     filter (\<lambda>config. getIn (reprojection (h config)) False) configs"

definition requiresShapefileSubsetting :: "DataOperation \<Rightarrow> bool" where
  "requiresShapefileSubsetting op = truthy (geojson op)"

definition supportsShapefileSubsetting :: "(ref \<Rightarrow> ServiceConfig) \<Rightarrow> ref list \<Rightarrow> ref list" where
  "supportsShapefileSubsetting h configs =
     filter (\<lambda>config. getIn (subsetting_shape (h config)) False) configs"

section \<open>The sentinel\<close>

text \<open>
  The module-level constant \<open>noOpService\<close>. The literal has no \<open>collections\<close> and no
  \<open>message\<close> property; the sentinel never enters a candidate list, so its collections
  are never read. It lives at the fixed address \<open>noOpRef\<close>.
\<close>

definition noOpService :: ServiceConfig where
  "noOpService =
     \<lparr>name = ''noOpService'', type_name = ''noOp'', collections = [],
      output_formats = Some [''application/json''],
      subsetting_variable = None, subsetting_bbox = None, subsetting_shape = None,
      reprojection = None, message = None\<rparr>"

definition noOpRef :: ref where
  "noOpRef = 0"

section \<open>Filter steps\<close>

text \<open>
  A filter step takes the candidates and the array \<open>requestedOperations\<close>, which it may
  extend in place; it returns the remaining candidates and the array, or throws
  \<open>UnsupportedOperation\<close> (\<open>Inl\<close>) holding the operation and the array.
\<close>

type_synonym filterFn =
  "deps \<Rightarrow> (ref \<Rightarrow> ServiceConfig) \<Rightarrow> DataOperation \<Rightarrow> RequestContext \<Rightarrow> ref list \<Rightarrow> string list
     \<Rightarrow> UnsupportedOperation + (ref list \<times> string list)"

definition filterCollectionMatches :: filterFn where
  "filterCollectionMatches d h op context configs requestedOps =
     (let matches = filter (\<lambda>config. isCollectionMatch op (h config)) configs
      in if length matches = 0 then Inl (newUnsupportedOperation op requestedOps)
         else Inr (matches, requestedOps))"

definition filterVariableSubsettingMatches :: filterFn where
  "filterVariableSubsettingMatches d h op context configs requestedOps =
     (let (matches, requestedOps') =
            (if requiresVariableSubsetting op
             then (supportsVariableSubsetting h configs, requestedOps @ [''variable subsetting''])
             else (configs, requestedOps))
      in if length matches = 0 then Inl (newUnsupportedOperation op requestedOps')
         else Inr (matches, requestedOps'))"

definition filterOutputFormatMatches :: filterFn where
  "filterOutputFormatMatches d h op context configs requestedOps =
     (let (services, requestedOps') =
            (if requiresReformatting d op context
             then (let fmts = (if truthy (outputFormat op) then [the (outputFormat op)]
                               else getIn (requestedMimeTypes context) []);
                       ros = requestedOps @ [''reformatting to '' @ listToText d fmts OR];
                       fmt = selectFormat d h op context configs
                   in if truthy fmt
                      then (selectServicesForFormat d h (the fmt) configs, ros)
                      else ([], ros))
             else (configs, requestedOps))
      in if length services = 0 then Inl (newUnsupportedOperation op requestedOps')
         else Inr (services, requestedOps'))"

definition filterSpatialSubsettingMatches :: filterFn where
  "filterSpatialSubsettingMatches d h op context configs requestedOps =
     (let (services, requestedOps') =
            (if requiresSpatialSubsetting op
             then (supportsSpatialSubsetting h configs, requestedOps @ [''spatial subsetting''])
             else (configs, requestedOps))
      in if length services = 0 then Inl (newUnsupportedOperation op requestedOps')
         else Inr (services, requestedOps'))"

definition filterReprojectionMatches :: filterFn where
  "filterReprojectionMatches d h op context configs requestedOps =
     (let (services, requestedOps') =
            (if requiresReprojection op
             then (supportsReprojection h configs, requestedOps @ [''reprojection''])
             else (configs, requestedOps))
      in if length services = 0 then Inl (newUnsupportedOperation op requestedOps')
         else Inr (services, requestedOps'))"

definition filterShapefileSubsettingMatches :: filterFn where
  "filterShapefileSubsettingMatches d h op context configs requestedOps =
     (let (services, requestedOps') =
            (if requiresShapefileSubsetting op
             then (supportsShapefileSubsetting h configs, requestedOps @ [''shapefile subsetting''])
             else (configs, requestedOps))
      in if length services = 0 then Inl (newUnsupportedOperation op requestedOps')
         else Inr (services, requestedOps'))"

definition unsupportedCombinationMessage :: "deps \<Rightarrow> UnsupportedOperation \<Rightarrow> string" where
  "unsupportedCombinationMessage d e =
     (let colls = map collection (sources (operation e))
      in if length (requestedOperations e) > 0
         then ''the requested combination of operations: '' @ listToText d (requestedOperations e) AND
              @ '' on '' @ listToText d colls AND @ '' is unsupported''
         else ''no operations can be performed on '' @ listToText d colls AND)"

definition allFilterFns :: "filterFn list" where
  "allFilterFns =
     [filterCollectionMatches,
      filterVariableSubsettingMatches,
      filterSpatialSubsettingMatches,
      filterShapefileSubsettingMatches,
      filterReprojectionMatches,
      filterOutputFormatMatches]"

definition requiredFilterFns :: "filterFn list" where
  "requiredFilterFns =
     [filterCollectionMatches,
      filterVariableSubsettingMatches,
      filterReprojectionMatches,
      filterOutputFormatMatches]"

definition bestEffortMessage :: string where
  "bestEffortMessage = ''Data in output files may extend outside the spatial bounds you requested.''"

section \<open>Choosing a service\<close>

text \<open>The \<open>for\<close> loop of \<open>filterServiceConfigs\<close>; a throwing step ends it.\<close>

fun runFilterFns ::
  "deps \<Rightarrow> (ref \<Rightarrow> ServiceConfig) \<Rightarrow> DataOperation \<Rightarrow> RequestContext \<Rightarrow> filterFn list
     \<Rightarrow> ref list \<Rightarrow> string list \<Rightarrow> UnsupportedOperation + (ref list \<times> string list)" where
  "runFilterFns d h op context [] matches requestedOps = Inr (matches, requestedOps)"
| "runFilterFns d h op context (filterFn # rest) matches requestedOps =
     (case filterFn d h op context matches requestedOps of
        Inl e \<Rightarrow> Inl e
      | Inr (matches', requestedOps') \<Rightarrow> runFilterFns d h op context rest matches' requestedOps')"

text \<open>
  \<open>filterServiceConfigs\<close> returns the chosen reference (\<open>None\<close> is \<open>undefined\<close>, the
  value of \<open>matches[0]\<close> on an empty array), the operation, which it may have mutated,
  and the store, in which it may have written the sentinel's message. The call to the
  logger is left out.
\<close>

definition filterServiceConfigs ::
  "deps \<Rightarrow> DataOperation \<Rightarrow> RequestContext \<Rightarrow> ref list \<Rightarrow> filterFn list \<Rightarrow> store
     \<Rightarrow> ref option \<times> DataOperation \<times> store" where
  "filterServiceConfigs d op context configs filterFns s =
     (case runFilterFns d (heap s) op context filterFns configs [] of
        Inr (matches, requestedOps) \<Rightarrow>
          (let fmt = selectFormat d (heap s) op context matches
           in if truthy fmt
              then (first (selectServicesForFormat d (heap s) (the fmt) matches),
                    op\<lparr>outputFormat := fmt\<rparr>, s)
              else (first matches, op, s))
      | Inl e \<Rightarrow>
          (Some noOpRef, op,
           s\<lparr>heap := (heap s)(noOpRef :=
                (heap s noOpRef)\<lparr>message := Some (unsupportedCombinationMessage d e)\<rparr>)\<rparr>))"

definition requiresStrictCapabilitiesMatching ::
  "deps \<Rightarrow> DataOperation \<Rightarrow> RequestContext \<Rightarrow> bool" where
  "requiresStrictCapabilitiesMatching d op context =
     (if (\<not> requiresSpatialSubsetting op \<and> \<not> requiresShapefileSubsetting op)
         \<or> (\<not> requiresVariableSubsetting op \<and> \<not> requiresReprojection op
            \<and> \<not> requiresReformatting d op context)
      then True else False)"

text \<open>\<open>_.cloneDeep\<close>: a new object with the same contents, at an unused address.\<close>

definition cloneDeep :: "ref \<Rightarrow> store \<Rightarrow> ref \<times> store" where
  "cloneDeep r s =
     (nextRef s, s\<lparr>heap := (heap s)(nextRef s := heap s r), nextRef := Suc (nextRef s)\<rparr>)"

text \<open>
  \<open>chooseServiceConfig\<close>. Reading \<open>serviceConfig.name\<close> of \<open>undefined\<close> throws a
  \<open>TypeError\<close>, which nothing catches.
\<close>

definition chooseServiceConfig ::
  "deps \<Rightarrow> DataOperation \<Rightarrow> RequestContext \<Rightarrow> ref list \<Rightarrow> store
     \<Rightarrow> (error + ref) \<times> DataOperation \<times> store" where
  "chooseServiceConfig d op context configs s =
     (case filterServiceConfigs d op context configs allFilterFns s of
        (None, op1, s1) \<Rightarrow> (Inl TypeError, op1, s1)
      | (Some serviceConfig, op1, s1) \<Rightarrow>
          if name (heap s1 serviceConfig) = ''noOpService''
             \<and> \<not> requiresStrictCapabilitiesMatching d op1 context
          then (case filterServiceConfigs d op1 context configs requiredFilterFns s1 of
                  (None, op2, s2) \<Rightarrow> (Inl TypeError, op2, s2)
                | (Some serviceConfig2, op2, s2) \<Rightarrow>
                    if name (heap s2 serviceConfig2) \<noteq> ''noOpService''
                    then (let (c, s3) = cloneDeep serviceConfig2 s2
                          in (Inr c, op2,
                              s3\<lparr>heap := (heap s3)(c :=
                                   (heap s3 c)\<lparr>message := Some bestEffortMessage\<rparr>)\<rparr>))
                    else (Inr serviceConfig2, op2, s2))
          else (Inr serviceConfig, op1, s1))"

section \<open>The helpers that are not among the sources\<close>

text \<open>
  Modelled from the spec: \<open>isMimeTypeAccepted\<close> of \<open>util/content-negotiation\<close>, which is
  not among the sources. The spec gives its contract as standard type/subtype wildcard
  matching: \<open>*/*\<close> accepts anything, \<open>type/*\<close> accepts any subtype of \<open>type\<close>, an exact
  string accepts only itself. The first argument is the media type, the second the pattern.
\<close>

definition isMimeTypeAcceptedSpec :: "string \<Rightarrow> string \<Rightarrow> bool" where
  "isMimeTypeAcceptedSpec mimeType pattern =
     (if pattern = ''*/*'' then True
      else if 2 \<le> length pattern \<and> drop (length pattern - 2) pattern = ''/*''
      then take (length pattern - 1) mimeType = take (length pattern - 1) pattern
      else mimeType = pattern)"

text \<open>
  Modelled from the spec: \<open>allowsAny\<close> of \<open>util/content-negotiation\<close>, which is not among
  the sources. The spec calls it the "accept anything" signal, the wildcard-"any" pattern.
\<close>

definition allowsAnySpec :: "string \<Rightarrow> bool" where
  "allowsAnySpec pattern = (pattern = ''*/*'')"

text \<open>
  Modelled from the spec: \<open>listToText\<close> of \<open>util/string\<close>, which is not among the sources.
  The spec describes natural-language joining: comma-separated, the final separator "and"
  or "or". First the joining word of a conjunction.
\<close>

fun conjuctionWord :: "Conjuction \<Rightarrow> string" where
  "conjuctionWord AND = ''and''"
| "conjuctionWord OR = ''or''"

text \<open>
  Modelled from the spec: the part of \<open>listToText\<close> that joins three or more items,
  with commas and the joining word before the last item.
\<close>

fun listToTextTail :: "string list \<Rightarrow> Conjuction \<Rightarrow> string" where
  "listToTextTail [] j = []"
| "listToTextTail [a] j = conjuctionWord j @ '' '' @ a"
| "listToTextTail (a # rest) j = a @ '', '' @ listToTextTail rest j"

text \<open>
  Modelled from the spec: \<open>listToText\<close> itself; two items are joined by the word alone.
\<close>

fun listToTextSpec :: "string list \<Rightarrow> Conjuction \<Rightarrow> string" where
  "listToTextSpec [] j = []"
| "listToTextSpec [a] j = a"
| "listToTextSpec [a, b] j = a @ '' '' @ conjuctionWord j @ '' '' @ b"
| "listToTextSpec items j = listToTextTail items j"

text \<open>The three helpers as modelled from the specification.\<close>

definition specDeps :: deps where
  "specDeps = \<lparr>isMimeTypeAccepted = isMimeTypeAcceptedSpec, allowsAny = allowsAnySpec,
               listToText = listToTextSpec\<rparr>"

section \<open>Notions used to state the properties\<close>

text \<open>
  The policy in the words of the specification: a degraded match is permitted when the
  request requires at least one soft axis (spatial or shapefile subsetting) and at least
  one hard axis (variable subsetting, reprojection or reformatting).
\<close>

definition permitsDegradedMatch :: "deps \<Rightarrow> DataOperation \<Rightarrow> RequestContext \<Rightarrow> bool" where
  "permitsDegradedMatch d op context =
     ((requiresSpatialSubsetting op \<or> requiresShapefileSubsetting op)
      \<and> (requiresVariableSubsetting op \<or> requiresReprojection op
           \<or> requiresReformatting d op context))"

text \<open>The store after the diagnostic of signal \<open>e\<close> has been written into the sentinel.\<close>

definition noMatchStore :: "deps \<Rightarrow> UnsupportedOperation \<Rightarrow> store \<Rightarrow> store" where
  "noMatchStore d e s =
     s\<lparr>heap := (heap s)(noOpRef :=
          (heap s noOpRef)\<lparr>message := Some (unsupportedCombinationMessage d e)\<rparr>)\<rparr>"

text \<open>
  A call ends in a no-match when the strict chain throws and either no degraded retry is
  permitted or the reduced chain throws too; \<open>noMatchSignal\<close> is then the signal thrown
  last, and \<open>None\<close> for every other call.
\<close>

definition noMatchSignal ::
  "deps \<Rightarrow> (ref \<Rightarrow> ServiceConfig) \<Rightarrow> DataOperation \<Rightarrow> RequestContext \<Rightarrow> ref list
     \<Rightarrow> UnsupportedOperation option" where
  "noMatchSignal d h op context configs =
     (case runFilterFns d h op context allFilterFns configs [] of
        Inr _ \<Rightarrow> None
      | Inl e \<Rightarrow>
          if permitsDegradedMatch d op context
          then (case runFilterFns d h op context requiredFilterFns configs [] of
                  Inr _ \<Rightarrow> None
                | Inl e' \<Rightarrow> Some e')
          else Some e)"

text \<open>
  What a filter step may do, given the candidates it received and the requirement log
  expected after it: return a non-empty sublist of the candidates together with that log,
  or throw the signal holding the operation and that log.
\<close>

definition stepOutcome ::
  "(UnsupportedOperation + ref list \<times> string list) \<Rightarrow> DataOperation \<Rightarrow> ref list \<Rightarrow> string list \<Rightarrow> bool" where
  "stepOutcome r op configs log =
     (case r of
        Inr (matches, requestedOps) \<Rightarrow> matches \<noteq> [] \<and> subseq matches configs \<and> requestedOps = log
      | Inl e \<Rightarrow> operation e = op \<and> requestedOperations e = log)"

text \<open>
  The requirement log of a request: the descriptions of the axes it requires, in the
  order variable subsetting, spatial subsetting, shapefile subsetting, reprojection,
  reformatting.
\<close>

definition requirementLog :: "deps \<Rightarrow> DataOperation \<Rightarrow> RequestContext \<Rightarrow> string list" where
  "requirementLog d op ctx =
     (if requiresVariableSubsetting op then [''variable subsetting''] else [])
     @ (if requiresSpatialSubsetting op then [''spatial subsetting''] else [])
     @ (if requiresShapefileSubsetting op then [''shapefile subsetting''] else [])
     @ (if requiresReprojection op then [''reprojection''] else [])
     @ (if requiresReformatting d op ctx
        then [''reformatting to '' @ listToText d
                (if truthy (outputFormat op) then [the (outputFormat op)]
                 else getIn (requestedMimeTypes ctx) []) OR]
        else [])"

text \<open>Two stores whose objects differ at most in name and message.\<close>

definition sameCaps :: "(ref \<Rightarrow> ServiceConfig) \<Rightarrow> (ref \<Rightarrow> ServiceConfig) \<Rightarrow> bool" where
  "sameCaps h h' =
     (\<forall>r. (h' r)\<lparr>message := None, name := []\<rparr> = (h r)\<lparr>message := None, name := []\<rparr>)"

definition goodStep :: "filterFn \<Rightarrow> bool" where
  "goodStep f = (\<forall>d h op ctx cs log ms l.
      f d h op ctx cs log = Inr (ms, l) \<longrightarrow> ms \<noteq> [] \<and> subseq ms cs)"

section \<open>An example catalog and example requests\<close>

text \<open>
  The catalog of the specification's scenarios: service A offers tiff and netcdf4 and
  shapefile subsetting, B offers tiff and png and spatial subsetting, C offers tiff and
  png and reprojection. All three serve collection C1.
\<close>

definition svcA :: ServiceConfig where
  "svcA = \<lparr>name = ''A'', type_name = ''argo'', collections = [''C1''],
           output_formats = Some [''image/tiff'', ''application/x-netcdf4''],
           subsetting_variable = None, subsetting_bbox = None, subsetting_shape = Some True,
           reprojection = None, message = None\<rparr>"

definition svcB :: ServiceConfig where
  "svcB = \<lparr>name = ''B'', type_name = ''argo'', collections = [''C1''],
           output_formats = Some [''image/tiff'', ''image/png''],
           subsetting_variable = None, subsetting_bbox = Some True, subsetting_shape = None,
           reprojection = None, message = None\<rparr>"

definition svcC :: ServiceConfig where
  "svcC = \<lparr>name = ''C'', type_name = ''argo'', collections = [''C1''],
           output_formats = Some [''image/tiff'', ''image/png''],
           subsetting_variable = None, subsetting_bbox = None, subsetting_shape = None,
           reprojection = Some True, message = None\<rparr>"

definition exampleStore :: store where
  "exampleStore =
     \<lparr>heap = (\<lambda>r. if r = 0 then noOpService else if r = 1 then svcA
                   else if r = 2 then svcB else svcC),
      nextRef = 4\<rparr>"

definition exampleCatalog :: "ref list" where
  "exampleCatalog = [1, 2, 3]"

definition noContext :: RequestContext where
  "noContext = \<lparr>requestedMimeTypes = None\<rparr>"

definition exampleOperation :: "int list option \<Rightarrow> string option \<Rightarrow> string option \<Rightarrow> DataOperation" where
  "exampleOperation bbox projection fmt =
     \<lparr>sources = [\<lparr>collection = ''C1'', variables = None\<rparr>], boundingRectangle = bbox,
      geojson = None, crs = projection, outputFormat = fmt\<rparr>"

definition opBboxGif :: DataOperation where
  "opBboxGif = exampleOperation (Some [0, 0, 1, 1]) None (Some ''image/gif'')"

definition opBboxNetcdf :: DataOperation where
  "opBboxNetcdf = exampleOperation (Some [0, 0, 1, 1]) None (Some ''application/x-netcdf4'')"

definition opCrsNetcdf :: DataOperation where
  "opCrsNetcdf = exampleOperation None (Some ''EPSG:4326'') (Some ''application/x-netcdf4'')"

text \<open>The signals these requests raise on the example catalog.\<close>

definition sigCrsNetcdf :: UnsupportedOperation where
  "sigCrsNetcdf = newUnsupportedOperation opCrsNetcdf
     [''reprojection'', ''reformatting to application/x-netcdf4'']"

definition sigBboxGifStrict :: UnsupportedOperation where
  "sigBboxGifStrict = newUnsupportedOperation opBboxGif
     [''spatial subsetting'', ''reformatting to image/gif'']"

definition sigBboxGifReduced :: UnsupportedOperation where
  "sigBboxGifReduced = newUnsupportedOperation opBboxGif [''reformatting to image/gif'']"

definition sigBboxNetcdf :: UnsupportedOperation where
  "sigBboxNetcdf = newUnsupportedOperation opBboxNetcdf
     [''spatial subsetting'', ''reformatting to application/x-netcdf4'']"

section \<open>Notions used to state the properties of format resolution\<close>

text \<open>The output formats a service offers, and the patterns a context accepts.\<close>

definition formatsOf :: "(ref \<Rightarrow> ServiceConfig) \<Rightarrow> ref \<Rightarrow> string list" where
  "formatsOf h c = getIn (output_formats (h c)) []"

definition patternsOf :: "RequestContext \<Rightarrow> string list" where
  "patternsOf ctx = getIn (requestedMimeTypes ctx) []"

text \<open>The test \<open>selectServicesForFormat\<close> applies to one service.\<close>

definition supportsFormat :: "deps \<Rightarrow> (ref \<Rightarrow> ServiceConfig) \<Rightarrow> string \<Rightarrow> ref \<Rightarrow> bool" where
  "supportsFormat d h pattern c =
     truthy (find (\<lambda>f. isMimeTypeAccepted d f pattern) (formatsOf h c))"

text \<open>
  Format resolution in the words of the specification: the services whose output-format
  list contains an entry accepted by the pattern; and, going through the patterns in the
  caller's order, the first accepted entry of the first such service for the first pattern
  that has one, no format when no pattern has one.
\<close>

definition acceptedServices :: "deps \<Rightarrow> (ref \<Rightarrow> ServiceConfig) \<Rightarrow> string \<Rightarrow> ref list \<Rightarrow> ref list" where
  "acceptedServices d h pattern cs =
     filter (\<lambda>c. \<exists>f\<in>set (formatsOf h c). isMimeTypeAccepted d f pattern) cs"

fun resolveFormat :: "deps \<Rightarrow> (ref \<Rightarrow> ServiceConfig) \<Rightarrow> string list \<Rightarrow> ref list \<Rightarrow> string option" where
  "resolveFormat d h [] cs = None"
| "resolveFormat d h (pattern # rest) cs =
     (case acceptedServices d h pattern cs of
        [] \<Rightarrow> resolveFormat d h rest cs
      | c # _ \<Rightarrow> find (\<lambda>f. isMimeTypeAccepted d f pattern) (formatsOf h c))"

text \<open>The two chains without their last step, the output-format filter.\<close>

definition strictPreFns :: "filterFn list" where
  "strictPreFns =
     [filterCollectionMatches, filterVariableSubsettingMatches, filterSpatialSubsettingMatches,
      filterShapefileSubsettingMatches, filterReprojectionMatches]"

definition reducedPreFns :: "filterFn list" where
  "reducedPreFns =
     [filterCollectionMatches, filterVariableSubsettingMatches, filterReprojectionMatches]"

text \<open>
  The candidates left, and the operation as it is left, after the format resolution that
  follows a chain which returned \<open>matches\<close>.
\<close>

definition remaining ::
  "deps \<Rightarrow> (ref \<Rightarrow> ServiceConfig) \<Rightarrow> DataOperation \<Rightarrow> RequestContext \<Rightarrow> ref list \<Rightarrow> ref list" where
  "remaining d h op ctx matches =
     (if truthy (selectFormat d h op ctx matches)
      then selectServicesForFormat d h (the (selectFormat d h op ctx matches)) matches
      else matches)"

definition resolved ::
  "deps \<Rightarrow> (ref \<Rightarrow> ServiceConfig) \<Rightarrow> DataOperation \<Rightarrow> RequestContext \<Rightarrow> ref list \<Rightarrow> DataOperation" where
  "resolved d h op ctx matches =
     (if truthy (selectFormat d h op ctx matches)
      then op\<lparr>outputFormat := selectFormat d h op ctx matches\<rparr>
      else op)"

text \<open>A filter step that does not look at the operation's output format.\<close>

definition formatBlind :: "filterFn \<Rightarrow> bool" where
  "formatBlind f = (\<forall>d h op ctx cs log x.
      f d h (op\<lparr>outputFormat := x\<rparr>) ctx cs log =
        (case f d h op ctx cs log of
           Inl e \<Rightarrow> Inl (e\<lparr>operation := op\<lparr>outputFormat := x\<rparr>\<rparr>)
         | Inr r \<Rightarrow> Inr r))"

text \<open>A filter step that reads the store at its candidates only.\<close>

definition agreeStep :: "filterFn \<Rightarrow> bool" where
  "agreeStep f = (\<forall>d h h' op ctx cs log.
      (\<forall>c\<in>set cs. h' c = h c) \<longrightarrow> f d h' op ctx cs log = f d h op ctx cs log)"

text \<open>
  What a caller reads off a call's result: the chosen service's name and message, in the
  store as the call left it; nothing when the call threw.
\<close>

definition outcome :: "(error + ref) \<times> DataOperation \<times> store \<Rightarrow> (string \<times> string option) option" where
  "outcome res =
     (case res of
        (Inr r, op', s') \<Rightarrow> Some (name (heap s' r), message (heap s' r))
      | (Inl e, op', s') \<Rightarrow> None)"

section \<open>More example requests\<close>

definition opPng :: DataOperation where
  "opPng = exampleOperation None None (Some ''image/png'')"

definition opPlain :: DataOperation where
  "opPlain = exampleOperation None None None"

definition ctxPngAny :: RequestContext where
  "ctxPngAny = \<lparr>requestedMimeTypes = Some [''image/png'', ''*/*'']\<rparr>"

section \<open>Evaluation on the examples\<close>

lemmas example_defs =
  exampleOperation_def noContext_def exampleCatalog_def exampleStore_def specDeps_def
  svcA_def svcB_def svcC_def noOpService_def noOpRef_def opBboxGif_def opBboxNetcdf_def
  opCrsNetcdf_def isMimeTypeAcceptedSpec_def allowsAnySpec_def

lemmas sig_defs = sigCrsNetcdf_def sigBboxGifStrict_def sigBboxGifReduced_def sigBboxNetcdf_def

lemmas model_defs =
  chooseServiceConfig_def filterServiceConfigs_def allFilterFns_def requiredFilterFns_def
  filterCollectionMatches_def filterVariableSubsettingMatches_def
  filterSpatialSubsettingMatches_def filterShapefileSubsettingMatches_def
  filterReprojectionMatches_def filterOutputFormatMatches_def isCollectionMatch_def
  supportsVariableSubsetting_def supportsSpatialSubsetting_def supportsShapefileSubsetting_def
  supportsReprojection_def Let_def requiresVariableSubsetting_def requiresSpatialSubsetting_def
  requiresShapefileSubsetting_def requiresReprojection_def requiresReformatting_def truthy_def
  getIn_def first_def selectFormat_def selectServicesForFormat_def
  requiresStrictCapabilitiesMatching_def newUnsupportedOperation_def
  unsupportedCombinationMessage_def cloneDeep_def permitsDegradedMatch_def noMatchStore_def
  noMatchSignal_def

section \<open>Properties of the filter steps\<close>

lemma subseq_selectServicesForFormat: "subseq (selectServicesForFormat d h f cs) cs"
  by (simp add: selectServicesForFormat_def)

lemma subseq_mem: "subseq xs ys \<Longrightarrow> x \<in> set xs \<Longrightarrow> x \<in> set ys"
  by (induction rule: list_emb.induct) auto

lemma first_Some_mem: "first xs = Some x \<Longrightarrow> x \<in> set xs"
  by (cases xs) (simp_all add: first_def)

text \<open>
  Claim C4. Each of the six filter steps, on every candidate list and every incoming
  requirement log, either returns a non-empty sublist of its candidates or throws the
  unsupported-operation signal, never an empty list; in both cases the log it hands on
  (in the result or in the signal) is the incoming log followed by the step's own
  description when the step's requirement applies. The collection step has no description.
\<close>

theorem filter_step_nonempty_or_throws:
  "stepOutcome (filterCollectionMatches d h op ctx cs log) op cs log
   \<and> stepOutcome (filterVariableSubsettingMatches d h op ctx cs log) op cs
        (log @ (if requiresVariableSubsetting op then [''variable subsetting''] else []))
   \<and> stepOutcome (filterSpatialSubsettingMatches d h op ctx cs log) op cs
        (log @ (if requiresSpatialSubsetting op then [''spatial subsetting''] else []))
   \<and> stepOutcome (filterShapefileSubsettingMatches d h op ctx cs log) op cs
        (log @ (if requiresShapefileSubsetting op then [''shapefile subsetting''] else []))
   \<and> stepOutcome (filterReprojectionMatches d h op ctx cs log) op cs
        (log @ (if requiresReprojection op then [''reprojection''] else []))
   \<and> stepOutcome (filterOutputFormatMatches d h op ctx cs log) op cs
        (log @ (if requiresReformatting d op ctx
                then [''reformatting to '' @ listToText d
                        (if truthy (outputFormat op) then [the (outputFormat op)]
                         else getIn (requestedMimeTypes ctx) []) OR]
                else []))"
  by (simp add: stepOutcome_def filterCollectionMatches_def filterVariableSubsettingMatches_def
      filterSpatialSubsettingMatches_def filterShapefileSubsettingMatches_def
      filterReprojectionMatches_def filterOutputFormatMatches_def newUnsupportedOperation_def
      supportsVariableSubsetting_def supportsSpatialSubsetting_def supportsShapefileSubsetting_def
      supportsReprojection_def subseq_selectServicesForFormat Let_def)

lemma step_Inr:
  "filterCollectionMatches d h op ctx cs log = Inr (ms, l) \<Longrightarrow> ms \<noteq> [] \<and> subseq ms cs"
  "filterVariableSubsettingMatches d h op ctx cs log = Inr (ms, l) \<Longrightarrow> ms \<noteq> [] \<and> subseq ms cs"
  "filterSpatialSubsettingMatches d h op ctx cs log = Inr (ms, l) \<Longrightarrow> ms \<noteq> [] \<and> subseq ms cs"
  "filterShapefileSubsettingMatches d h op ctx cs log = Inr (ms, l) \<Longrightarrow> ms \<noteq> [] \<and> subseq ms cs"
  "filterReprojectionMatches d h op ctx cs log = Inr (ms, l) \<Longrightarrow> ms \<noteq> [] \<and> subseq ms cs"
  "filterOutputFormatMatches d h op ctx cs log = Inr (ms, l) \<Longrightarrow> ms \<noteq> [] \<and> subseq ms cs"
  by (auto simp add: filterCollectionMatches_def filterVariableSubsettingMatches_def
      filterSpatialSubsettingMatches_def filterShapefileSubsettingMatches_def
      filterReprojectionMatches_def filterOutputFormatMatches_def
      supportsVariableSubsetting_def supportsSpatialSubsetting_def supportsShapefileSubsetting_def
      supportsReprojection_def selectServicesForFormat_def Let_def split: if_splits)

lemma goodStep_filters:
  "goodStep filterCollectionMatches" "goodStep filterVariableSubsettingMatches"
  "goodStep filterSpatialSubsettingMatches" "goodStep filterShapefileSubsettingMatches"
  "goodStep filterReprojectionMatches" "goodStep filterOutputFormatMatches"
  unfolding goodStep_def by (blast dest: step_Inr)+

lemma runFilterFns_goodSteps:
  assumes "\<forall>f\<in>set fns. goodStep f"
    and "runFilterFns d h op ctx fns cs log = Inr (ms, l)"
  shows "subseq ms cs \<and> (fns \<noteq> [] \<longrightarrow> ms \<noteq> [])"
  using assms
proof (induction fns arbitrary: cs log)
  case Nil
  then show ?case by simp
next
  case (Cons f fns)
  from Cons.prems(2) obtain ms' l' where
    f: "f d h op ctx cs log = Inr (ms', l')"
    and rest: "runFilterFns d h op ctx fns ms' l' = Inr (ms, l)"
    by (auto split: sum.splits)
  from Cons.prems(1) have "goodStep f" by simp
  with f have ms': "ms' \<noteq> []" "subseq ms' cs"
    unfolding goodStep_def by blast+
  from Cons.IH [OF _ rest] Cons.prems(1) have sub: "subseq ms ms'" by simp
  have "ms \<noteq> []"
  proof (cases fns)
    case Nil
    with rest ms' show ?thesis by simp
  next
    case (Cons g gs)
    with Cons.IH [OF _ rest] \<open>\<forall>f\<in>set (f # fns). goodStep f\<close> show ?thesis by simp
  qed
  with sub ms' show ?case by (simp add: subseq_order.trans [of ms ms' cs])
qed

lemma allFilterFns_Inr:
  assumes "runFilterFns d h op ctx allFilterFns cs log = Inr (ms, l)"
  shows "ms \<noteq> [] \<and> subseq ms cs"
  using runFilterFns_goodSteps [OF _ assms]
  by (simp add: allFilterFns_def goodStep_filters)

lemma requiredFilterFns_Inr:
  assumes "runFilterFns d h op ctx requiredFilterFns cs log = Inr (ms, l)"
  shows "ms \<noteq> [] \<and> subseq ms cs"
  using runFilterFns_goodSteps [OF _ assms]
  by (simp add: requiredFilterFns_def goodStep_filters)

lemma step_logs:
  "filterCollectionMatches d h op ctx cs log = Inr (ms, l) \<Longrightarrow> l = log"
  "filterCollectionMatches d h op ctx cs log = Inl e \<Longrightarrow> requestedOperations e = log"
  "filterVariableSubsettingMatches d h op ctx cs log = Inr (ms, l) \<Longrightarrow>
     l = log @ (if requiresVariableSubsetting op then [''variable subsetting''] else [])"
  "filterVariableSubsettingMatches d h op ctx cs log = Inl e \<Longrightarrow>
     requestedOperations e = log @ (if requiresVariableSubsetting op then [''variable subsetting''] else [])"
  "filterSpatialSubsettingMatches d h op ctx cs log = Inr (ms, l) \<Longrightarrow>
     l = log @ (if requiresSpatialSubsetting op then [''spatial subsetting''] else [])"
  "filterSpatialSubsettingMatches d h op ctx cs log = Inl e \<Longrightarrow>
     requestedOperations e = log @ (if requiresSpatialSubsetting op then [''spatial subsetting''] else [])"
  "filterShapefileSubsettingMatches d h op ctx cs log = Inr (ms, l) \<Longrightarrow>
     l = log @ (if requiresShapefileSubsetting op then [''shapefile subsetting''] else [])"
  "filterShapefileSubsettingMatches d h op ctx cs log = Inl e \<Longrightarrow>
     requestedOperations e = log @ (if requiresShapefileSubsetting op then [''shapefile subsetting''] else [])"
  "filterReprojectionMatches d h op ctx cs log = Inr (ms, l) \<Longrightarrow>
     l = log @ (if requiresReprojection op then [''reprojection''] else [])"
  "filterReprojectionMatches d h op ctx cs log = Inl e \<Longrightarrow>
     requestedOperations e = log @ (if requiresReprojection op then [''reprojection''] else [])"
  "filterOutputFormatMatches d h op ctx cs log = Inr (ms, l) \<Longrightarrow>
     l = log @ (if requiresReformatting d op ctx
        then [''reformatting to '' @ listToText d
                (if truthy (outputFormat op) then [the (outputFormat op)]
                 else getIn (requestedMimeTypes ctx) []) OR]
        else [])"
  "filterOutputFormatMatches d h op ctx cs log = Inl e \<Longrightarrow>
     requestedOperations e = log @ (if requiresReformatting d op ctx
        then [''reformatting to '' @ listToText d
                (if truthy (outputFormat op) then [the (outputFormat op)]
                 else getIn (requestedMimeTypes ctx) []) OR]
        else [])"
  by (auto simp add: filterCollectionMatches_def filterVariableSubsettingMatches_def
      filterSpatialSubsettingMatches_def filterShapefileSubsettingMatches_def
      filterReprojectionMatches_def filterOutputFormatMatches_def newUnsupportedOperation_def
      Let_def split: if_splits)

lemma chain_log:
  "(case runFilterFns d h op ctx allFilterFns cs log of
      Inr (ms, l) \<Rightarrow> l = log @ requirementLog d op ctx
    | Inl e \<Rightarrow> prefix log (requestedOperations e)
               \<and> prefix (requestedOperations e) (log @ requirementLog d op ctx))"
proof -
  let ?v = "if requiresVariableSubsetting op then [''variable subsetting''] else []"
  let ?s = "if requiresSpatialSubsetting op then [''spatial subsetting''] else []"
  let ?f = "if requiresShapefileSubsetting op then [''shapefile subsetting''] else []"
  let ?r = "if requiresReprojection op then [''reprojection''] else []"
  let ?o = "if requiresReformatting d op ctx
        then [''reformatting to '' @ listToText d
                (if truthy (outputFormat op) then [the (outputFormat op)]
                 else getIn (requestedMimeTypes ctx) []) OR]
        else []"
  have full: "requirementLog d op ctx = ?v @ ?s @ ?f @ ?r @ ?o"
    by (simp add: requirementLog_def)
  show ?thesis
  proof (cases "filterCollectionMatches d h op ctx cs log")
    case (Inl e)
    with step_logs(2) [OF Inl] show ?thesis by (simp add: allFilterFns_def)
  next
    case (Inr b1)
    then obtain m1 l1 where s1: "filterCollectionMatches d h op ctx cs log = Inr (m1, l1)"
      by (cases b1) simp
    from step_logs(1) [OF s1] have l1: "l1 = log" .
    show ?thesis
    proof (cases "filterVariableSubsettingMatches d h op ctx m1 l1")
      case (Inl e)
      from step_logs(4) [OF Inl] l1 have "requestedOperations e = log @ ?v" by simp
      with s1 Inl show ?thesis by (simp add: allFilterFns_def full del: append_assoc)
    next
      case (Inr b2)
      then obtain m2 l2 where s2: "filterVariableSubsettingMatches d h op ctx m1 l1 = Inr (m2, l2)"
        by (cases b2) simp
      from step_logs(3) [OF s2] l1 have l2: "l2 = log @ ?v" by simp
      show ?thesis
      proof (cases "filterSpatialSubsettingMatches d h op ctx m2 l2")
        case (Inl e)
        from step_logs(6) [OF Inl] l2 have "requestedOperations e = log @ ?v @ ?s" by simp
        with s1 s2 Inl show ?thesis by (simp add: allFilterFns_def full)
      next
        case (Inr b3)
        then obtain m3 l3 where s3: "filterSpatialSubsettingMatches d h op ctx m2 l2 = Inr (m3, l3)"
          by (cases b3) simp
        from step_logs(5) [OF s3] l2 have l3: "l3 = log @ ?v @ ?s" by simp
        show ?thesis
        proof (cases "filterShapefileSubsettingMatches d h op ctx m3 l3")
          case (Inl e)
          from step_logs(8) [OF Inl] l3 have "requestedOperations e = log @ ?v @ ?s @ ?f" by simp
          with s1 s2 s3 Inl show ?thesis by (simp add: allFilterFns_def full)
        next
          case (Inr b4)
          then obtain m4 l4 where s4: "filterShapefileSubsettingMatches d h op ctx m3 l3 = Inr (m4, l4)"
            by (cases b4) simp
          from step_logs(7) [OF s4] l3 have l4: "l4 = log @ ?v @ ?s @ ?f" by simp
          show ?thesis
          proof (cases "filterReprojectionMatches d h op ctx m4 l4")
            case (Inl e)
            from step_logs(10) [OF Inl] l4 have "requestedOperations e = log @ ?v @ ?s @ ?f @ ?r" by simp
            with s1 s2 s3 s4 Inl show ?thesis by (simp add: allFilterFns_def full)
          next
            case (Inr b5)
            then obtain m5 l5 where s5: "filterReprojectionMatches d h op ctx m4 l4 = Inr (m5, l5)"
              by (cases b5) simp
            from step_logs(9) [OF s5] l4 have l5: "l5 = log @ ?v @ ?s @ ?f @ ?r" by simp
            show ?thesis
            proof (cases "filterOutputFormatMatches d h op ctx m5 l5")
              case (Inl e)
              from step_logs(12) [OF Inl] l5 have "requestedOperations e = log @ ?v @ ?s @ ?f @ ?r @ ?o"
                by simp
              with s1 s2 s3 s4 s5 Inl show ?thesis by (simp add: allFilterFns_def full)
            next
              case (Inr b6)
              then obtain m6 l6 where s6: "filterOutputFormatMatches d h op ctx m5 l5 = Inr (m6, l6)"
                by (cases b6) simp
              from step_logs(11) [OF s6] l5 have "l6 = log @ ?v @ ?s @ ?f @ ?r @ ?o" by simp
              with s1 s2 s3 s4 s5 s6 show ?thesis by (simp add: allFilterFns_def full)
            qed
          qed
        qed
      qed
    qed
  qed
qed

text \<open>
  Claim C5. The strict chain runs the collection filter first, then variable subsetting,
  spatial subsetting, shapefile subsetting, reprojection, and the output-format filter
  last, each step receiving the candidates and the log of the step before it and a throw
  ending the chain. The collection filter keeps exactly the services whose collection
  list includes every collection of the request's sources, and never adds to the log.
  The order shows in the log: a chain that completes has added the descriptions of the
  required axes in that order, reformatting last, and a chain that throws has added an
  initial part of them.
\<close>

theorem strict_chain_order:
  "runFilterFns d h op ctx allFilterFns cs log =
     (case filterCollectionMatches d h op ctx cs log of Inl e \<Rightarrow> Inl e | Inr (m1, l1) \<Rightarrow>
      case filterVariableSubsettingMatches d h op ctx m1 l1 of Inl e \<Rightarrow> Inl e | Inr (m2, l2) \<Rightarrow>
      case filterSpatialSubsettingMatches d h op ctx m2 l2 of Inl e \<Rightarrow> Inl e | Inr (m3, l3) \<Rightarrow>
      case filterShapefileSubsettingMatches d h op ctx m3 l3 of Inl e \<Rightarrow> Inl e | Inr (m4, l4) \<Rightarrow>
      case filterReprojectionMatches d h op ctx m4 l4 of Inl e \<Rightarrow> Inl e | Inr (m5, l5) \<Rightarrow>
      filterOutputFormatMatches d h op ctx m5 l5)
   \<and> filterCollectionMatches d h op ctx cs log =
       (if filter (\<lambda>c. set (map collection (sources op)) \<subseteq> set (collections (h c))) cs = []
        then Inl (newUnsupportedOperation op log)
        else Inr (filter (\<lambda>c. set (map collection (sources op)) \<subseteq> set (collections (h c))) cs, log))
   \<and> (case runFilterFns d h op ctx allFilterFns cs log of
         Inr (ms, l) \<Rightarrow> l = log @ requirementLog d op ctx
       | Inl e \<Rightarrow> prefix log (requestedOperations e)
                  \<and> prefix (requestedOperations e) (log @ requirementLog d op ctx))"
proof -
  have "isCollectionMatch op x = (set (map collection (sources op)) \<subseteq> set (collections x))" for x
    by (auto simp add: isCollectionMatch_def list_all_iff)
  then have A: "filterCollectionMatches d h op ctx cs log =
       (if filter (\<lambda>c. set (map collection (sources op)) \<subseteq> set (collections (h c))) cs = []
        then Inl (newUnsupportedOperation op log)
        else Inr (filter (\<lambda>c. set (map collection (sources op)) \<subseteq> set (collections (h c))) cs, log))"
    by (simp add: filterCollectionMatches_def Let_def)
  have B: "runFilterFns d h op ctx allFilterFns cs log =
     (case filterCollectionMatches d h op ctx cs log of Inl e \<Rightarrow> Inl e | Inr (m1, l1) \<Rightarrow>
      case filterVariableSubsettingMatches d h op ctx m1 l1 of Inl e \<Rightarrow> Inl e | Inr (m2, l2) \<Rightarrow>
      case filterSpatialSubsettingMatches d h op ctx m2 l2 of Inl e \<Rightarrow> Inl e | Inr (m3, l3) \<Rightarrow>
      case filterShapefileSubsettingMatches d h op ctx m3 l3 of Inl e \<Rightarrow> Inl e | Inr (m4, l4) \<Rightarrow>
      case filterReprojectionMatches d h op ctx m4 l4 of Inl e \<Rightarrow> Inl e | Inr (m5, l5) \<Rightarrow>
      filterOutputFormatMatches d h op ctx m5 l5)"
    by (simp add: allFilterFns_def split: sum.splits prod.splits)
  show ?thesis by (intro conjI B A chain_log)
qed

section \<open>The filters do not read names or messages\<close>

lemma sameCaps_fields:
  assumes "sameCaps h h'"
  shows "collections (h' r) = collections (h r)"
    "output_formats (h' r) = output_formats (h r)"
    "subsetting_variable (h' r) = subsetting_variable (h r)"
    "subsetting_bbox (h' r) = subsetting_bbox (h r)"
    "subsetting_shape (h' r) = subsetting_shape (h r)"
    "reprojection (h' r) = reprojection (h r)"
proof -
  from assms have e: "(h' r)\<lparr>message := None, name := []\<rparr> = (h r)\<lparr>message := None, name := []\<rparr>"
    by (simp add: sameCaps_def)
  show "collections (h' r) = collections (h r)"
    using arg_cong [OF e, of collections] by simp
  show "output_formats (h' r) = output_formats (h r)"
    using arg_cong [OF e, of output_formats] by simp
  show "subsetting_variable (h' r) = subsetting_variable (h r)"
    using arg_cong [OF e, of subsetting_variable] by simp
  show "subsetting_bbox (h' r) = subsetting_bbox (h r)"
    using arg_cong [OF e, of subsetting_bbox] by simp
  show "subsetting_shape (h' r) = subsetting_shape (h r)"
    using arg_cong [OF e, of subsetting_shape] by simp
  show "reprojection (h' r) = reprojection (h r)"
    using arg_cong [OF e, of reprojection] by simp
qed

lemma sameCaps_selectServicesForFormat:
  assumes "sameCaps h h'"
  shows "selectServicesForFormat d h' f cs = selectServicesForFormat d h f cs"
  by (simp add: selectServicesForFormat_def sameCaps_fields [OF assms])

lemma sameCaps_selectFormatLoop:
  assumes "sameCaps h h'"
  shows "selectFormatLoop d h' ms cs fmt = selectFormatLoop d h ms cs fmt"
  by (induction ms arbitrary: fmt)
     (simp_all add: sameCaps_selectServicesForFormat [OF assms] sameCaps_fields [OF assms] Let_def)

lemma sameCaps_selectFormat:
  assumes "sameCaps h h'"
  shows "selectFormat d h' op ctx cs = selectFormat d h op ctx cs"
  by (simp add: selectFormat_def sameCaps_selectFormatLoop [OF assms])

lemma sameCaps_steps:
  assumes "sameCaps h h'"
  shows "filterCollectionMatches d h' op ctx cs log = filterCollectionMatches d h op ctx cs log"
    "filterVariableSubsettingMatches d h' op ctx cs log = filterVariableSubsettingMatches d h op ctx cs log"
    "filterSpatialSubsettingMatches d h' op ctx cs log = filterSpatialSubsettingMatches d h op ctx cs log"
    "filterShapefileSubsettingMatches d h' op ctx cs log = filterShapefileSubsettingMatches d h op ctx cs log"
    "filterReprojectionMatches d h' op ctx cs log = filterReprojectionMatches d h op ctx cs log"
    "filterOutputFormatMatches d h' op ctx cs log = filterOutputFormatMatches d h op ctx cs log"
  by (simp_all add: filterCollectionMatches_def filterVariableSubsettingMatches_def
      filterSpatialSubsettingMatches_def filterShapefileSubsettingMatches_def
      filterReprojectionMatches_def filterOutputFormatMatches_def isCollectionMatch_def
      supportsVariableSubsetting_def supportsSpatialSubsetting_def supportsShapefileSubsetting_def
      supportsReprojection_def sameCaps_fields [OF assms]
      sameCaps_selectServicesForFormat [OF assms] sameCaps_selectFormat [OF assms] Let_def)

lemma sameCaps_allFilterFns:
  assumes "sameCaps h h'"
  shows "runFilterFns d h' op ctx allFilterFns cs log = runFilterFns d h op ctx allFilterFns cs log"
  by (simp add: allFilterFns_def sameCaps_steps [OF assms] cong: sum.case_cong prod.case_cong)

lemma sameCaps_requiredFilterFns:
  assumes "sameCaps h h'"
  shows "runFilterFns d h' op ctx requiredFilterFns cs log = runFilterFns d h op ctx requiredFilterFns cs log"
  by (simp add: requiredFilterFns_def sameCaps_steps [OF assms] cong: sum.case_cong prod.case_cong)

lemma sameCaps_noMatchStore: "sameCaps (heap s) (heap (noMatchStore d e s))"
  by (simp add: sameCaps_def noMatchStore_def)

section \<open>One run of the chain\<close>

lemma filterServiceConfigs_Inl:
  "runFilterFns d (heap s) op ctx fns cs [] = Inl e \<Longrightarrow>
   filterServiceConfigs d op ctx cs fns s = (Some noOpRef, op, noMatchStore d e s)"
  by (simp add: filterServiceConfigs_def noMatchStore_def)

lemma noMatchStore_simps [simp]:
  "nextRef (noMatchStore d e s) = nextRef s"
  "name (heap (noMatchStore d e s) r) = name (heap s r)"
  "message (heap (noMatchStore d e s) noOpRef) = Some (unsupportedCombinationMessage d e)"
  "r \<noteq> noOpRef \<Longrightarrow> heap (noMatchStore d e s) r = heap s r"
  by (simp_all add: noMatchStore_def)

lemma noMatchStore_twice: "noMatchStore d e2 (noMatchStore d e1 s) = noMatchStore d e2 s"
  by (simp add: noMatchStore_def)

text \<open>A successful run returns one of the candidates and leaves the store alone.\<close>

lemma filterServiceConfigs_Inr:
  assumes "runFilterFns d (heap s) op ctx fns cs [] = Inr (ms, l)"
    and "subseq ms cs"
    and "filterServiceConfigs d op ctx cs fns s = (Some r, op2, s2)"
  shows "r \<in> set cs \<and> s2 = s"
proof -
  have sub: "subseq (selectServicesForFormat d (heap s) f ms) cs" for f
    using subseq_order.trans [OF subseq_selectServicesForFormat assms(2)] .
  from assms(1,3) show ?thesis
    by (auto simp add: filterServiceConfigs_def Let_def split: if_splits
        dest!: first_Some_mem intro: subseq_mem [OF sub] subseq_mem [OF assms(2)])
qed

lemma strict_iff_not_permits:
  "requiresStrictCapabilitiesMatching d op ctx = (\<not> permitsDegradedMatch d op ctx)"
  by (auto simp add: requiresStrictCapabilitiesMatching_def permitsDegradedMatch_def)

section \<open>The degraded retry\<close>

text \<open>
  Claim C1. After a strict no-match (the strict chain threw), \<open>chooseServiceConfig\<close> runs
  the degraded retry if and only if the request requires at least one soft axis (spatial
  or shapefile subsetting) and at least one hard axis (variable subsetting, reprojection
  or reformatting): the code's test \<open>\<not> requiresStrictCapabilitiesMatching\<close> is that
  condition; when it holds the call's outcome is that of the reduced run (cloned and
  annotated when it finds a service), and when it does not hold the strict no-match stands:
  the sentinel with the strict diagnostic, the operation untouched.
\<close>

theorem degraded_retry_iff_mixed:
  assumes "runFilterFns d (heap s) op ctx allFilterFns cs [] = Inl e"
    and "name (heap s noOpRef) = ''noOpService''"
  shows "((\<not> requiresStrictCapabilitiesMatching d op ctx) = permitsDegradedMatch d op ctx)
    \<and> chooseServiceConfig d op ctx cs s =
        (if permitsDegradedMatch d op ctx
         then (case filterServiceConfigs d op ctx cs requiredFilterFns (noMatchStore d e s) of
                 (None, op2, s2) \<Rightarrow> (Inl TypeError, op2, s2)
               | (Some r2, op2, s2) \<Rightarrow>
                   if name (heap s2 r2) \<noteq> ''noOpService''
                   then (Inr (nextRef s2), op2,
                         s2\<lparr>heap := (heap s2)(nextRef s2 :=
                               (heap s2 r2)\<lparr>message := Some bestEffortMessage\<rparr>),
                            nextRef := Suc (nextRef s2)\<rparr>)
                   else (Inr r2, op2, s2))
         else (Inr noOpRef, op, noMatchStore d e s))"
  using assms
  by (auto simp add: chooseServiceConfig_def filterServiceConfigs_Inl strict_iff_not_permits
      cloneDeep_def split: prod.splits option.splits)

theorem degraded_retry_iff_mixed_witness:
  "runFilterFns specDeps (heap exampleStore) opCrsNetcdf noContext allFilterFns exampleCatalog []
     = Inl sigCrsNetcdf
   \<and> name (heap exampleStore noOpRef) = ''noOpService''
   \<and> \<not> permitsDegradedMatch specDeps opCrsNetcdf noContext
   \<and> chooseServiceConfig specDeps opCrsNetcdf noContext exampleCatalog exampleStore
       = (Inr noOpRef, opCrsNetcdf, noMatchStore specDeps sigCrsNetcdf exampleStore)"
proof -
  have h1: "runFilterFns specDeps (heap exampleStore) opCrsNetcdf noContext allFilterFns
              exampleCatalog [] = Inl sigCrsNetcdf"
    by (simp add: model_defs example_defs sig_defs)
  have h2: "name (heap exampleStore noOpRef) = ''noOpService''"
    by (simp add: example_defs)
  have h3: "\<not> permitsDegradedMatch specDeps opCrsNetcdf noContext"
    by (simp add: model_defs example_defs)
  from degraded_retry_iff_mixed [OF h1 h2] h1 h2 h3 show ?thesis by simp
qed

section \<open>Calls that end in a no-match\<close>

lemma noMatch_call:
  assumes "name (heap s noOpRef) = ''noOpService''"
    and "noMatchSignal d (heap s) op ctx cs = Some e"
  shows "chooseServiceConfig d op ctx cs s = (Inr noOpRef, op, noMatchStore d e s)"
proof -
  from assms(2) obtain e1 where
    strict: "runFilterFns d (heap s) op ctx allFilterFns cs [] = Inl e1"
    by (auto simp add: noMatchSignal_def split: sum.splits)
  have run1: "filterServiceConfigs d op ctx cs allFilterFns s = (Some noOpRef, op, noMatchStore d e1 s)"
    using strict by (rule filterServiceConfigs_Inl)
  show ?thesis
  proof (cases "permitsDegradedMatch d op ctx")
    case False
    with assms(2) strict have "e = e1" by (simp add: noMatchSignal_def)
    with False run1 assms(1) show ?thesis
      by (simp add: chooseServiceConfig_def strict_iff_not_permits)
  next
    case True
    with assms(2) strict have
      "runFilterFns d (heap s) op ctx requiredFilterFns cs [] = Inl e"
      by (auto simp add: noMatchSignal_def split: sum.splits)
    then have "runFilterFns d (heap (noMatchStore d e1 s)) op ctx requiredFilterFns cs [] = Inl e"
      by (simp add: sameCaps_requiredFilterFns [OF sameCaps_noMatchStore])
    then have run2: "filterServiceConfigs d op ctx cs requiredFilterFns (noMatchStore d e1 s)
        = (Some noOpRef, op, noMatchStore d e (noMatchStore d e1 s))"
      by (rule filterServiceConfigs_Inl)
    from True run1 run2 assms(1) show ?thesis
      by (simp add: chooseServiceConfig_def strict_iff_not_permits noMatchStore_twice)
  qed
qed

text \<open>
  Claim C2, as stated, fails. On the example catalog, a request for spatial subsetting and
  reformatting to gif is permitted a degraded match, and both chains throw; the strict run
  writes the diagnostic naming spatial subsetting and reformatting into the sentinel, and
  the reduced run then overwrites it with its own diagnostic, which names reformatting
  only. The sentinel returned carries the latter.
\<close>

theorem no_match_message_counterexample:
  "permitsDegradedMatch specDeps opBboxGif noContext
   \<and> isl (runFilterFns specDeps (heap exampleStore) opBboxGif noContext allFilterFns exampleCatalog [])
   \<and> isl (runFilterFns specDeps (heap exampleStore) opBboxGif noContext requiredFilterFns exampleCatalog [])
   \<and> fst (chooseServiceConfig specDeps opBboxGif noContext exampleCatalog exampleStore) = Inr noOpRef
   \<and> message (heap (snd (snd (filterServiceConfigs specDeps opBboxGif noContext exampleCatalog
                                 allFilterFns exampleStore))) noOpRef)
       = Some ''the requested combination of operations: spatial subsetting and reformatting to image/gif on C1 is unsupported''
   \<and> message (heap (snd (snd (chooseServiceConfig specDeps opBboxGif noContext exampleCatalog
                                 exampleStore))) noOpRef)
       = Some ''the requested combination of operations: reformatting to image/gif on C1 is unsupported''"
  by (simp add: model_defs example_defs)

text \<open>
  Claim C2, amended. When a degraded match is permitted and both the strict and the
  reduced chain throw, \<open>chooseServiceConfig\<close> returns the sentinel, leaves the operation
  untouched, and the sentinel's message is the diagnostic of the signal thrown by the
  reduced chain; nothing else in the store changes.
\<close>

theorem reduced_no_match_message:
  assumes "name (heap s noOpRef) = ''noOpService''"
    and "permitsDegradedMatch d op ctx"
    and "runFilterFns d (heap s) op ctx allFilterFns cs [] = Inl e1"
    and "runFilterFns d (heap s) op ctx requiredFilterFns cs [] = Inl e2"
  shows "chooseServiceConfig d op ctx cs s = (Inr noOpRef, op, noMatchStore d e2 s)
    \<and> message (heap (noMatchStore d e2 s) noOpRef) = Some (unsupportedCombinationMessage d e2)"
proof -
  have "noMatchSignal d (heap s) op ctx cs = Some e2"
    using assms(2-4) by (simp add: noMatchSignal_def)
  from noMatch_call [OF assms(1) this] show ?thesis by simp
qed

theorem reduced_no_match_message_witness:
  "name (heap exampleStore noOpRef) = ''noOpService''
   \<and> permitsDegradedMatch specDeps opBboxGif noContext
   \<and> runFilterFns specDeps (heap exampleStore) opBboxGif noContext allFilterFns exampleCatalog []
       = Inl sigBboxGifStrict
   \<and> runFilterFns specDeps (heap exampleStore) opBboxGif noContext requiredFilterFns exampleCatalog []
       = Inl sigBboxGifReduced
   \<and> chooseServiceConfig specDeps opBboxGif noContext exampleCatalog exampleStore
       = (Inr noOpRef, opBboxGif, noMatchStore specDeps sigBboxGifReduced exampleStore)"
proof -
  have h1: "name (heap exampleStore noOpRef) = ''noOpService''"
    by (simp add: example_defs)
  have h2: "permitsDegradedMatch specDeps opBboxGif noContext"
    by (simp add: model_defs example_defs)
  have h3: "runFilterFns specDeps (heap exampleStore) opBboxGif noContext allFilterFns
              exampleCatalog [] = Inl sigBboxGifStrict"
    by (simp add: model_defs example_defs sig_defs)
  have h4: "runFilterFns specDeps (heap exampleStore) opBboxGif noContext requiredFilterFns
              exampleCatalog [] = Inl sigBboxGifReduced"
    by (simp add: model_defs example_defs sig_defs)
  from reduced_no_match_message [OF h1 h2 h3 h4] h1 h2 h3 h4 show ?thesis by simp
qed

text \<open>
  Claim C9. Every no-match result is the one sentinel object at \<open>noOpRef\<close>, whose name is
  \<open>noOpService\<close>; no object is allocated, and the call writes its diagnostic into the
  sentinel's message in place. After two no-match calls in a row (for any two requests,
  contexts and catalogs) both results are that same reference, so the object obtained from
  the first call carries the diagnostic of the second.
\<close>

theorem no_match_is_shared_sentinel:
  assumes "name (heap s noOpRef) = ''noOpService''"
    and "noMatchSignal d (heap s) opA ctxA csA = Some eA"
    and "chooseServiceConfig d opA ctxA csA s = (rA, opA', sA)"
    and "noMatchSignal d (heap sA) opB ctxB csB = Some eB"
    and "chooseServiceConfig d opB ctxB csB sA = (rB, opB', sB)"
  shows "rA = Inr noOpRef \<and> rB = Inr noOpRef
    \<and> message (heap sA noOpRef) = Some (unsupportedCombinationMessage d eA)
    \<and> message (heap sB noOpRef) = Some (unsupportedCombinationMessage d eB)
    \<and> name (heap sB noOpRef) = ''noOpService''
    \<and> nextRef sB = nextRef s"
proof -
  from noMatch_call [OF assms(1) assms(2)] assms(3)
  have A: "rA = Inr noOpRef" "sA = noMatchStore d eA s" by simp_all
  then have nameA: "name (heap sA noOpRef) = ''noOpService''"
    using assms(1) by simp
  from noMatch_call [OF nameA assms(4)] assms(5)
  have B: "rB = Inr noOpRef" "sB = noMatchStore d eB sA" by simp_all
  from A B assms(1) show ?thesis by simp
qed

theorem no_match_is_shared_sentinel_witness:
  "name (heap exampleStore noOpRef) = ''noOpService''
   \<and> noMatchSignal specDeps (heap exampleStore) opCrsNetcdf noContext exampleCatalog
       = Some sigCrsNetcdf
   \<and> chooseServiceConfig specDeps opCrsNetcdf noContext exampleCatalog exampleStore
       = (Inr noOpRef, opCrsNetcdf, noMatchStore specDeps sigCrsNetcdf exampleStore)
   \<and> noMatchSignal specDeps (heap (noMatchStore specDeps sigCrsNetcdf exampleStore)) opBboxGif
        noContext exampleCatalog
       = Some sigBboxGifReduced
   \<and> chooseServiceConfig specDeps opBboxGif noContext exampleCatalog
        (noMatchStore specDeps sigCrsNetcdf exampleStore)
       = (Inr noOpRef, opBboxGif,
          noMatchStore specDeps sigBboxGifReduced (noMatchStore specDeps sigCrsNetcdf exampleStore))
   \<and> message (heap (noMatchStore specDeps sigBboxGifReduced
                       (noMatchStore specDeps sigCrsNetcdf exampleStore)) noOpRef)
       = Some (unsupportedCombinationMessage specDeps sigBboxGifReduced)"
proof -
  have h1: "name (heap exampleStore noOpRef) = ''noOpService''"
    by (simp add: example_defs)
  have h2: "noMatchSignal specDeps (heap exampleStore) opCrsNetcdf noContext exampleCatalog
       = Some sigCrsNetcdf"
    by (simp add: model_defs example_defs sig_defs)
  have h3: "chooseServiceConfig specDeps opCrsNetcdf noContext exampleCatalog exampleStore
       = (Inr noOpRef, opCrsNetcdf, noMatchStore specDeps sigCrsNetcdf exampleStore)"
    by (simp add: model_defs example_defs sig_defs)
  have h4: "noMatchSignal specDeps (heap (noMatchStore specDeps sigCrsNetcdf exampleStore)) opBboxGif
        noContext exampleCatalog = Some sigBboxGifReduced"
    by (simp add: model_defs example_defs sig_defs)
  have h5: "chooseServiceConfig specDeps opBboxGif noContext exampleCatalog
        (noMatchStore specDeps sigCrsNetcdf exampleStore)
       = (Inr noOpRef, opBboxGif,
          noMatchStore specDeps sigBboxGifReduced (noMatchStore specDeps sigCrsNetcdf exampleStore))"
    by (simp add: model_defs example_defs sig_defs)
  from no_match_is_shared_sentinel [OF h1 h2 h3 h4 h5] h1 h2 h3 h4 h5 show ?thesis by simp
qed

section \<open>The degraded match\<close>

text \<open>
  Claim C3. When the strict chain throws, a degraded match is permitted, and the reduced
  run finds a service (its result is not named \<open>noOpService\<close>), \<open>chooseServiceConfig\<close>
  returns a newly allocated object, not one of the catalog, whose contents are those of
  the matched catalog entry with the message set to the fixed warning. The matched entry
  is one of the catalog and is left as it was, message included, and so is every other
  catalog entry. The catalog's objects are taken to be allocated (below \<open>nextRef\<close>).
\<close>

theorem degraded_match_clone:
  assumes nm: "name (heap s noOpRef) = ''noOpService''"
    and alloc: "\<forall>c\<in>set cs. c < nextRef s"
    and strict: "runFilterFns d (heap s) op ctx allFilterFns cs [] = Inl e"
    and permits: "permitsDegradedMatch d op ctx"
    and reduced: "filterServiceConfigs d op ctx cs requiredFilterFns (noMatchStore d e s) = (Some r, op2, s2)"
    and found: "name (heap s2 r) \<noteq> ''noOpService''"
  shows "fst (chooseServiceConfig d op ctx cs s) = Inr (nextRef s)
    \<and> nextRef s \<notin> set cs
    \<and> heap (snd (snd (chooseServiceConfig d op ctx cs s))) (nextRef s)
        = (heap s r)\<lparr>message := Some bestEffortMessage\<rparr>
    \<and> bestEffortMessage = ''Data in output files may extend outside the spatial bounds you requested.''
    \<and> r \<in> set cs
    \<and> heap (snd (snd (chooseServiceConfig d op ctx cs s))) r = heap s r
    \<and> (\<forall>c\<in>set cs. c \<noteq> noOpRef \<longrightarrow>
          heap (snd (snd (chooseServiceConfig d op ctx cs s))) c = heap s c)"
proof -
  let ?s1 = "noMatchStore d e s"
  have run1: "filterServiceConfigs d op ctx cs allFilterFns s = (Some noOpRef, op, ?s1)"
    using strict by (rule filterServiceConfigs_Inl)
  have notInl: "runFilterFns d (heap ?s1) op ctx requiredFilterFns cs [] \<noteq> Inl e'" for e'
  proof
    assume "runFilterFns d (heap ?s1) op ctx requiredFilterFns cs [] = Inl e'"
    from filterServiceConfigs_Inl [OF this] reduced found nm show False by simp
  qed
  then obtain ms l where
    chain: "runFilterFns d (heap ?s1) op ctx requiredFilterFns cs [] = Inr (ms, l)"
    by (cases "runFilterFns d (heap ?s1) op ctx requiredFilterFns cs []") auto
  from filterServiceConfigs_Inr [OF chain _ reduced] requiredFilterFns_Inr [OF chain]
  have r: "r \<in> set cs" and s2: "s2 = ?s1" by simp_all
  from found s2 nm have r0: "r \<noteq> noOpRef" by auto
  from alloc r have rn: "r \<noteq> nextRef s" by auto
  from alloc have fresh: "nextRef s \<notin> set cs" by auto
  have call: "chooseServiceConfig d op ctx cs s =
      (Inr (nextRef s), op2,
       ?s1\<lparr>heap := (heap ?s1)(nextRef s := (heap ?s1 r)\<lparr>message := Some bestEffortMessage\<rparr>),
           nextRef := Suc (nextRef s)\<rparr>)"
    using run1 reduced found nm permits s2
    by (simp add: chooseServiceConfig_def strict_iff_not_permits cloneDeep_def)
  show ?thesis
    using r r0 rn fresh alloc by (auto simp add: call bestEffortMessage_def)
qed

theorem degraded_match_clone_witness:
  "name (heap exampleStore noOpRef) = ''noOpService''
   \<and> list_all (\<lambda>c. c < nextRef exampleStore) exampleCatalog
   \<and> runFilterFns specDeps (heap exampleStore) opBboxNetcdf noContext allFilterFns exampleCatalog []
       = Inl sigBboxNetcdf
   \<and> permitsDegradedMatch specDeps opBboxNetcdf noContext
   \<and> filterServiceConfigs specDeps opBboxNetcdf noContext exampleCatalog requiredFilterFns
        (noMatchStore specDeps sigBboxNetcdf exampleStore)
       = (Some 1, opBboxNetcdf, noMatchStore specDeps sigBboxNetcdf exampleStore)
   \<and> fst (chooseServiceConfig specDeps opBboxNetcdf noContext exampleCatalog exampleStore) = Inr 4
   \<and> heap (snd (snd (chooseServiceConfig specDeps opBboxNetcdf noContext exampleCatalog
                        exampleStore))) 4
       = svcA\<lparr>message := Some bestEffortMessage\<rparr>
   \<and> heap (snd (snd (chooseServiceConfig specDeps opBboxNetcdf noContext exampleCatalog
                        exampleStore))) 1
       = svcA"
proof -
  have h1: "name (heap exampleStore noOpRef) = ''noOpService''"
    by (simp add: example_defs)
  have h2: "\<forall>c\<in>set exampleCatalog. c < nextRef exampleStore"
    by (simp add: example_defs)
  have h3: "runFilterFns specDeps (heap exampleStore) opBboxNetcdf noContext allFilterFns
              exampleCatalog [] = Inl sigBboxNetcdf"
    by (simp add: model_defs example_defs sig_defs)
  have h4: "permitsDegradedMatch specDeps opBboxNetcdf noContext"
    by (simp add: model_defs example_defs)
  have h5: "filterServiceConfigs specDeps opBboxNetcdf noContext exampleCatalog requiredFilterFns
        (noMatchStore specDeps sigBboxNetcdf exampleStore)
       = (Some 1, opBboxNetcdf, noMatchStore specDeps sigBboxNetcdf exampleStore)"
    by (simp add: model_defs example_defs sig_defs)
  have h6: "name (heap (noMatchStore specDeps sigBboxNetcdf exampleStore) 1) \<noteq> ''noOpService''"
    by (simp add: example_defs noMatchStore_def)
  have v: "nextRef exampleStore = 4" "heap exampleStore (Suc 0) = svcA"
    by (simp_all add: example_defs)
  from degraded_match_clone [OF h1 h2 h3 h4 h5 h6] h1 h2 h3 h4 h5 show ?thesis
    by (simp add: v list_all_iff)
qed

section \<open>The matcher modelled from the specification\<close>

lemmas more_example_defs = opPng_def opPlain_def ctxPngAny_def

lemma spec_refl: "isMimeTypeAcceptedSpec f f"
  by (simp add: isMimeTypeAcceptedSpec_def)

lemma wild_iff: "(2 \<le> length p \<and> drop (length p - 2) p = ''/*'') = (\<exists>t. p = t @ ''/*'')"
proof
  assume a: "2 \<le> length p \<and> drop (length p - 2) p = ''/*''"
  have "p = take (length p - 2) p @ drop (length p - 2) p" by simp
  with a show "\<exists>t. p = t @ ''/*''" by metis
next
  assume "\<exists>t. p = t @ ''/*''"
  then show "2 \<le> length p \<and> drop (length p - 2) p = ''/*''" by auto
qed

lemma acc_wild:
  "isMimeTypeAcceptedSpec x (t @ ''/*'') = (t = ''*'' \<or> take (Suc (length t)) x = t @ ''/'')"
  by (auto simp add: isMimeTypeAcceptedSpec_def)

lemma acc_exact:
  "\<not> (\<exists>t. p = t @ ''/*'') \<Longrightarrow> isMimeTypeAcceptedSpec x p = (x = p)"
  using wild_iff [of p] by (auto simp add: isMimeTypeAcceptedSpec_def)

lemma spec_trans:
  assumes gf: "isMimeTypeAcceptedSpec g f" and fp: "isMimeTypeAcceptedSpec f p"
  shows "isMimeTypeAcceptedSpec g p"
proof (cases "\<exists>t. p = t @ ''/*''")
  case False
  with fp have "f = p" by (simp add: acc_exact)
  with gf show ?thesis by simp
next
  case True
  then obtain t where p: "p = t @ ''/*''" by blast
  show ?thesis
  proof (cases "t = ''*''")
    case True
    with p show ?thesis by (simp add: isMimeTypeAcceptedSpec_def)
  next
    case tn: False
    with fp p have ft: "take (Suc (length t)) f = t @ ''/''" by (simp add: acc_wild)
    show ?thesis
    proof (cases "\<exists>u. f = u @ ''/*''")
      case False
      with gf have "g = f" by (simp add: acc_exact)
      with fp show ?thesis by simp
    next
      case True
      then obtain u where f: "f = u @ ''/*''" by blast
      have len: "length t \<le> length u"
      proof (rule ccontr)
        assume "\<not> length t \<le> length u"
        then have "length (u @ ''/*'') \<le> Suc (length t)" by simp
        then have "take (Suc (length t)) (u @ ''/*'') = u @ ''/*''" by (rule take_all)
        with ft f have "u @ ''/*'' = t @ ''/''" by simp
        then have "last (u @ ''/*'') = last (t @ ''/'')" by (rule arg_cong)
        then show False by simp
      qed
      show ?thesis
      proof (cases "u = ''*''")
        case True
        with len have "t = [] \<or> (\<exists>c. t = [c])" by (cases t) auto
        with ft f True tn show ?thesis by auto
      next
        case False
        with gf f have gu: "take (Suc (length u)) g = u @ ''/''" by (simp add: acc_wild)
        have short: "Suc (length t) - length u = 0 \<or> Suc (length t) - length u = 1"
          using len by auto
        have "take (Suc (length t)) g = take (Suc (length t)) (take (Suc (length u)) g)"
          using len by (simp add: min_def)
        also have "\<dots> = take (Suc (length t)) (u @ ''/'')" by (simp only: gu)
        also have "\<dots> = take (Suc (length t)) (u @ ''/*'')"
          using short by auto
        also have "\<dots> = t @ ''/''" using ft f by simp
        finally show ?thesis by (simp add: p acc_wild)
      qed
    qed
  qed
qed

section \<open>Format resolution\<close>

lemma selectServicesForFormat_filter:
  "selectServicesForFormat d h p cs = filter (supportsFormat d h p) cs"
  by (simp add: selectServicesForFormat_def supportsFormat_def [abs_def] formatsOf_def [abs_def])

lemma truthy_find:
  assumes "truthy (find Q xs)"
  obtains f where "find Q xs = Some f" "f \<in> set xs" "Q f" "f \<noteq> []"
proof -
  from assms obtain f where f: "find Q xs = Some f" "f \<noteq> []"
    by (auto simp add: truthy_def split: option.splits)
  from f(1) have "f \<in> set xs" "Q f"
    by (auto simp add: find_Some_iff)
  with f that show ?thesis by blast
qed

lemma supportsFormat_iff:
  assumes "[] \<notin> set (formatsOf h c)"
  shows "supportsFormat d h p c = (\<exists>f\<in>set (formatsOf h c). isMimeTypeAccepted d f p)"
proof
  assume "supportsFormat d h p c"
  then show "\<exists>f\<in>set (formatsOf h c). isMimeTypeAccepted d f p"
    unfolding supportsFormat_def by (auto elim: truthy_find)
next
  assume "\<exists>f\<in>set (formatsOf h c). isMimeTypeAccepted d f p"
  then obtain g where g: "find (\<lambda>f. isMimeTypeAccepted d f p) (formatsOf h c) = Some g"
    by (cases "find (\<lambda>f. isMimeTypeAccepted d f p) (formatsOf h c)") (auto simp add: find_None_iff)
  then have "g \<in> set (formatsOf h c)" by (auto simp add: find_Some_iff)
  with assms have "g \<noteq> []" by auto
  with g show "supportsFormat d h p c" by (simp add: supportsFormat_def truthy_def)
qed

lemma acceptedServices_eq:
  assumes "\<forall>c\<in>set cs. [] \<notin> set (formatsOf h c)"
  shows "acceptedServices d h p cs = selectServicesForFormat d h p cs"
  unfolding acceptedServices_def selectServicesForFormat_filter
  using assms by (intro filter_cong refl) (simp add: supportsFormat_iff)

lemma supported_hd:
  assumes "selectServicesForFormat d h p cs \<noteq> []"
  shows "truthy (find (\<lambda>f. isMimeTypeAccepted d f p)
                    (formatsOf h (hd (selectServicesForFormat d h p cs))))"
proof -
  from assms have "hd (selectServicesForFormat d h p cs) \<in> set (selectServicesForFormat d h p cs)"
    by simp
  then have "supportsFormat d h p (hd (selectServicesForFormat d h p cs))"
    by (simp add: selectServicesForFormat_filter)
  then show ?thesis by (simp add: supportsFormat_def)
qed

text \<open>The loop: the first pattern some candidate supports decides.\<close>

lemma selectFormatLoop_find:
  assumes "\<not> truthy fmt"
  shows "selectFormatLoop d h ps cs fmt =
     (case find (\<lambda>p. selectServicesForFormat d h p cs \<noteq> []) ps of
        None \<Rightarrow> fmt
      | Some p \<Rightarrow> find (\<lambda>f. isMimeTypeAccepted d f p)
                    (formatsOf h (hd (selectServicesForFormat d h p cs))))"
  using assms
proof (induction ps)
  case Nil
  then show ?case by simp
next
  case (Cons p ps)
  show ?case
  proof (cases "selectServicesForFormat d h p cs = []")
    case True
    with Cons show ?thesis by (simp add: Let_def)
  next
    case False
    from supported_hd [OF False] False show ?thesis by (simp add: Let_def formatsOf_def)
  qed
qed

lemma resolveFormat_find:
  assumes "\<forall>c\<in>set cs. [] \<notin> set (formatsOf h c)"
  shows "resolveFormat d h ps cs =
     (case find (\<lambda>p. selectServicesForFormat d h p cs \<noteq> []) ps of
        None \<Rightarrow> None
      | Some p \<Rightarrow> find (\<lambda>f. isMimeTypeAccepted d f p)
                    (formatsOf h (hd (selectServicesForFormat d h p cs))))"
proof (induction ps)
  case Nil
  then show ?case by simp
next
  case (Cons p ps)
  then show ?case
    by (cases "selectServicesForFormat d h p cs")
       (simp_all add: acceptedServices_eq [OF assms])
qed

lemma selectFormat_alt:
  "selectFormat d h op ctx cs =
     (if truthy (outputFormat op) then outputFormat op
      else selectFormatLoop d h (patternsOf ctx) cs (outputFormat op))"
  by (cases "requestedMimeTypes ctx"; cases "patternsOf ctx")
     (auto simp add: selectFormat_def patternsOf_def getIn_def)

text \<open>
  Claim C6. With no explicit output format on the operation, \<open>selectFormat\<close> goes
  through the context's accepted patterns in the caller's order; for each it keeps the candidates
  whose output-format list contains an entry the pattern accepts; at the first pattern
  that keeps any, the result is the first accepted entry of the first kept candidate, in
  candidate order; a pattern that keeps none is skipped; when no pattern keeps any there is
  no format (the falsy value the operation held is returned). So the order of the client's
  preferences decides first, and the catalog order within one preference. Output formats
  are taken to be non-empty strings.
\<close>

theorem format_resolution_order:
  assumes "\<not> truthy (outputFormat op)"
    and "\<forall>c\<in>set cs. [] \<notin> set (formatsOf h c)"
  shows "selectFormat d h op ctx cs =
     (case resolveFormat d h (patternsOf ctx) cs of None \<Rightarrow> outputFormat op | Some f \<Rightarrow> Some f)"
proof -
  let ?ps = "patternsOf ctx"
  have "selectFormat d h op ctx cs = selectFormatLoop d h ?ps cs (outputFormat op)"
    using assms(1) by (simp add: selectFormat_alt)
  also have "\<dots> = (case resolveFormat d h ?ps cs of None \<Rightarrow> outputFormat op | Some f \<Rightarrow> Some f)"
  proof (cases "find (\<lambda>p. selectServicesForFormat d h p cs \<noteq> []) ?ps")
    case None
    then show ?thesis
      by (simp add: selectFormatLoop_find [OF assms(1)] resolveFormat_find [OF assms(2)])
  next
    case (Some p)
    then have "selectServicesForFormat d h p cs \<noteq> []"
      by (auto simp add: find_Some_iff)
    then have "truthy (find (\<lambda>f. isMimeTypeAccepted d f p)
                    (formatsOf h (hd (selectServicesForFormat d h p cs))))"
      by (rule supported_hd)
    then obtain f where "find (\<lambda>f. isMimeTypeAccepted d f p)
                    (formatsOf h (hd (selectServicesForFormat d h p cs))) = Some f"
      by (auto elim: truthy_find)
    with Some show ?thesis
      by (simp add: selectFormatLoop_find [OF assms(1)] resolveFormat_find [OF assms(2)])
  qed
  finally show ?thesis .
qed

theorem format_resolution_order_witness:
  "\<not> truthy (outputFormat opPlain)
   \<and> patternsOf ctxPngAny = [''image/png'', ''*/*'']
   \<and> list_all (\<lambda>c. [] \<notin> set (formatsOf (heap exampleStore) c)) exampleCatalog
   \<and> resolveFormat specDeps (heap exampleStore) [''image/png'', ''*/*''] exampleCatalog
       = Some ''image/png''
   \<and> selectFormat specDeps (heap exampleStore) opPlain ctxPngAny exampleCatalog
       = Some ''image/png''"
proof -
  have h1: "\<not> truthy (outputFormat opPlain)"
    by (simp add: more_example_defs example_defs truthy_def)
  have h2: "patternsOf ctxPngAny = [''image/png'', ''*/*'']"
    by (simp add: more_example_defs patternsOf_def getIn_def)
  have h3: "\<forall>c\<in>set exampleCatalog. [] \<notin> set (formatsOf (heap exampleStore) c)"
    by (simp add: example_defs formatsOf_def getIn_def)
  have v: "resolveFormat specDeps (heap exampleStore) [''image/png'', ''*/*''] exampleCatalog
       = Some ''image/png''"
    by (simp add: acceptedServices_def example_defs formatsOf_def getIn_def)
  from format_resolution_order [OF h1 h3, of specDeps ctxPngAny] h1 h2 h3 v show ?thesis
    by (simp add: list_all_iff)
qed

section \<open>The candidates left after format resolution\<close>

lemma filterFns_split:
  "allFilterFns = strictPreFns @ [filterOutputFormatMatches]"
  "requiredFilterFns = reducedPreFns @ [filterOutputFormatMatches]"
  by (simp_all add: allFilterFns_def requiredFilterFns_def strictPreFns_def reducedPreFns_def)

lemma runFilterFns_snoc:
  "runFilterFns d h op ctx (fns @ [f]) cs log =
     (case runFilterFns d h op ctx fns cs log of
        Inl e \<Rightarrow> Inl e
      | Inr (N, l) \<Rightarrow> f d h op ctx N l)"
  by (induction fns arbitrary: cs log) (auto split: sum.splits)

lemma filterServiceConfigs_success:
  "runFilterFns d (heap s) op ctx fns cs [] = Inr (ms, l) \<Longrightarrow>
   filterServiceConfigs d op ctx cs fns s =
     (first (remaining d (heap s) op ctx ms), resolved d (heap s) op ctx ms, s)"
  by (simp add: filterServiceConfigs_def remaining_def resolved_def Let_def)

lemma output_step_Inr:
  assumes "filterOutputFormatMatches d h op ctx N l5 = Inr (ms, l)"
  shows "ms \<noteq> [] \<and>
     (if requiresReformatting d op ctx
      then truthy (selectFormat d h op ctx N)
           \<and> ms = selectServicesForFormat d h (the (selectFormat d h op ctx N)) N
      else ms = N)"
  using assms
  by (auto simp add: filterOutputFormatMatches_def Let_def split: if_splits)

lemma selectServicesForFormat_idem:
  "selectServicesForFormat d h f (selectServicesForFormat d h f cs) = selectServicesForFormat d h f cs"
  by (simp add: selectServicesForFormat_filter)

lemma selectServicesForFormat_commute:
  "selectServicesForFormat d h f (selectServicesForFormat d h g cs)
     = selectServicesForFormat d h g (selectServicesForFormat d h f cs)"
  by (auto simp add: selectServicesForFormat_filter intro: filter_cong)

text \<open>
  A format the loop resolves comes from a candidate, and that candidate supports the
  format taken as a pattern, when a media type is accepted by itself.
\<close>

lemma loop_format_supported:
  assumes refl: "\<forall>f. isMimeTypeAccepted d f f"
    and noEmpty: "\<forall>c\<in>set cs. [] \<notin> set (formatsOf h c)"
    and falsy: "\<not> truthy fmt0"
    and res: "truthy (selectFormatLoop d h ps cs fmt0)"
  obtains p f where "p \<in> set ps" "selectServicesForFormat d h p cs \<noteq> []"
    "find (\<lambda>q. selectServicesForFormat d h q cs \<noteq> []) ps = Some p"
    "selectFormatLoop d h ps cs fmt0 = Some f"
    "find (\<lambda>g. isMimeTypeAccepted d g p) (formatsOf h (hd (selectServicesForFormat d h p cs))) = Some f"
    "isMimeTypeAccepted d f p"
    "supportsFormat d h f (hd (selectServicesForFormat d h p cs))"
proof -
  obtain p where p: "find (\<lambda>q. selectServicesForFormat d h q cs \<noteq> []) ps = Some p"
    using res falsy
    by (cases "find (\<lambda>q. selectServicesForFormat d h q cs \<noteq> []) ps")
       (auto simp add: selectFormatLoop_find [OF falsy])
  then have pin: "p \<in> set ps" and ne: "selectServicesForFormat d h p cs \<noteq> []"
    by (auto simp add: find_Some_iff)
  let ?c = "hd (selectServicesForFormat d h p cs)"
  from supported_hd [OF ne] obtain f where
    f: "find (\<lambda>g. isMimeTypeAccepted d g p) (formatsOf h ?c) = Some f"
      "f \<in> set (formatsOf h ?c)" "isMimeTypeAccepted d f p"
    by (auto elim: truthy_find)
  from ne have "?c \<in> set (selectServicesForFormat d h p cs)" by simp
  then have cin: "?c \<in> set cs" by (simp add: selectServicesForFormat_filter)
  with noEmpty have "[] \<notin> set (formatsOf h ?c)" by simp
  from supportsFormat_iff [OF this] f(2) refl have sup: "supportsFormat d h f ?c"
    by auto
  have "selectFormatLoop d h ps cs fmt0 = Some f"
    using p f(1) by (simp add: selectFormatLoop_find [OF falsy])
  with pin ne p f sup that show ?thesis by blast
qed

lemma loop_narrowing_nonempty:
  assumes refl: "\<forall>f. isMimeTypeAccepted d f f"
    and noEmpty: "\<forall>c\<in>set cs. [] \<notin> set (formatsOf h c)"
    and falsy: "\<not> truthy fmt0"
    and res: "truthy (selectFormatLoop d h ps cs fmt0)"
  shows "selectServicesForFormat d h (the (selectFormatLoop d h ps cs fmt0)) cs \<noteq> []"
proof -
  from loop_format_supported [OF assms] obtain p f where
    ne: "selectServicesForFormat d h p cs \<noteq> []"
    and eq: "selectFormatLoop d h ps cs fmt0 = Some f"
    and sup: "supportsFormat d h f (hd (selectServicesForFormat d h p cs))"
    by blast
  from ne have "hd (selectServicesForFormat d h p cs) \<in> set (selectServicesForFormat d h p cs)"
    by simp
  then have "hd (selectServicesForFormat d h p cs) \<in> set cs"
    by (simp add: selectServicesForFormat_filter)
  with sup have "hd (selectServicesForFormat d h p cs) \<in> set (selectServicesForFormat d h f cs)"
    by (simp add: selectServicesForFormat_filter)
  with eq show ?thesis by auto
qed

text \<open>After the output-format step the format resolution leaves a candidate.\<close>

lemma remaining_nonempty:
  assumes refl: "\<forall>f. isMimeTypeAccepted d f f"
    and noEmpty: "\<forall>c\<in>set N. [] \<notin> set (formatsOf h c)"
    and step: "filterOutputFormatMatches d h op ctx N l5 = Inr (ms, l)"
  shows "remaining d h op ctx ms \<noteq> []"
proof -
  from output_step_Inr [OF step] have ms: "ms \<noteq> []" by simp
  have sub: "set ms \<subseteq> set N"
    using step_Inr(6) [OF step] by (auto dest: subseq_mem)
  show ?thesis
  proof (cases "truthy (selectFormat d h op ctx ms)")
    case False
    with ms show ?thesis by (simp add: remaining_def)
  next
    case True
    show ?thesis
    proof (cases "truthy (outputFormat op)")
      case explicit: True
      then have sel: "selectFormat d h op ctx xs = outputFormat op" for xs
        by (simp add: selectFormat_alt)
      from explicit have "requiresReformatting d op ctx"
        by (simp add: requiresReformatting_def)
      with output_step_Inr [OF step] sel
      have "ms = selectServicesForFormat d h (the (outputFormat op)) N" by simp
      then have "selectServicesForFormat d h (the (outputFormat op)) ms = ms"
        by (simp add: selectServicesForFormat_idem)
      with ms True sel show ?thesis by (simp add: remaining_def)
    next
      case False
      then have sel: "selectFormat d h op ctx ms
          = selectFormatLoop d h (patternsOf ctx) ms (outputFormat op)"
        by (simp add: selectFormat_alt)
      from noEmpty sub have ne: "\<forall>c\<in>set ms. [] \<notin> set (formatsOf h c)" by auto
      from loop_narrowing_nonempty [OF refl ne False] True sel
      show ?thesis by (simp add: remaining_def)
    qed
  qed
qed

lemma first_defined: "xs \<noteq> [] \<Longrightarrow> first xs = Some (hd xs)"
  by (cases xs) (simp_all add: first_def)

lemma chain_remaining_nonempty:
  assumes refl: "\<forall>f. isMimeTypeAccepted d f f"
    and noEmpty: "\<forall>c\<in>set cs. [] \<notin> set (formatsOf h c)"
    and fns: "fns = allFilterFns \<or> fns = requiredFilterFns"
    and chain: "runFilterFns d h op ctx fns cs [] = Inr (ms, l)"
  shows "remaining d h op ctx ms \<noteq> [] \<and> subseq (remaining d h op ctx ms) cs"
proof -
  from fns obtain pre where pre: "fns = pre @ [filterOutputFormatMatches]"
    "\<forall>f\<in>set pre. goodStep f"
    by (auto simp add: filterFns_split strictPreFns_def reducedPreFns_def goodStep_filters)
  from chain obtain N l5 where
    N: "runFilterFns d h op ctx pre cs [] = Inr (N, l5)"
    and step: "filterOutputFormatMatches d h op ctx N l5 = Inr (ms, l)"
    by (auto simp add: pre(1) runFilterFns_snoc split: sum.splits)
  from runFilterFns_goodSteps [OF pre(2) N] have "subseq N cs" by simp
  then have "set N \<subseteq> set cs" by (auto dest: subseq_mem)
  with noEmpty have ne: "\<forall>c\<in>set N. [] \<notin> set (formatsOf h c)" by auto
  have "subseq ms cs"
    using fns chain allFilterFns_Inr requiredFilterFns_Inr by blast
  then have "subseq (remaining d h op ctx ms) cs"
    using subseq_order.trans [OF subseq_selectServicesForFormat]
    by (simp add: remaining_def)
  with remaining_nonempty [OF refl ne step] show ?thesis by simp
qed

lemma filterServiceConfigs_defined:
  assumes refl: "\<forall>f. isMimeTypeAccepted d f f"
    and noEmpty: "\<forall>c\<in>set cs. [] \<notin> set (formatsOf (heap s) c)"
    and fns: "fns = allFilterFns \<or> fns = requiredFilterFns"
  shows "fst (filterServiceConfigs d op ctx cs fns s) \<noteq> None"
proof (cases "runFilterFns d (heap s) op ctx fns cs []")
  case (Inl e)
  then show ?thesis by (simp add: filterServiceConfigs_Inl)
next
  case (Inr b)
  then obtain ms l where chain: "runFilterFns d (heap s) op ctx fns cs [] = Inr (ms, l)"
    by (cases b) simp
  from chain_remaining_nonempty [OF refl noEmpty fns chain]
  show ?thesis
    by (simp add: filterServiceConfigs_success [OF chain] first_defined)
qed

lemma filterServiceConfigs_formats:
  "formatsOf (heap (snd (snd (filterServiceConfigs d op ctx cs fns s)))) c = formatsOf (heap s) c"
  by (cases "runFilterFns d (heap s) op ctx fns cs []")
     (auto simp add: filterServiceConfigs_def Let_def formatsOf_def)

text \<open>
  Claim C10. Whenever the strict or the reduced chain completes without throwing, the
  format resolution that follows it (which may set the operation's output format and
  narrow the candidates, also when reformatting was not required) leaves a non-empty
  candidate list, so \<open>filterServiceConfigs\<close> returns a defined service, the first of that
  list, and \<open>chooseServiceConfig\<close> never throws on an undefined value. The matcher is
  taken to accept every media type as a pattern for itself, and output formats to be
  non-empty strings.
\<close>

theorem format_resolution_keeps_candidate:
  assumes refl: "\<forall>f. isMimeTypeAccepted d f f"
    and noEmpty: "\<forall>c\<in>set cs. [] \<notin> set (formatsOf (heap s) c)"
  shows "(\<forall>ms l. runFilterFns d (heap s) op ctx allFilterFns cs [] = Inr (ms, l) \<longrightarrow>
            remaining d (heap s) op ctx ms \<noteq> []
            \<and> fst (filterServiceConfigs d op ctx cs allFilterFns s)
                = Some (hd (remaining d (heap s) op ctx ms)))
    \<and> (\<forall>ms l. runFilterFns d (heap s) op ctx requiredFilterFns cs [] = Inr (ms, l) \<longrightarrow>
            remaining d (heap s) op ctx ms \<noteq> []
            \<and> fst (filterServiceConfigs d op ctx cs requiredFilterFns s)
                = Some (hd (remaining d (heap s) op ctx ms)))
    \<and> fst (chooseServiceConfig d op ctx cs s) \<noteq> Inl TypeError"
proof -
  have one: "remaining d (heap s) op ctx ms \<noteq> []
       \<and> fst (filterServiceConfigs d op ctx cs fns s) = Some (hd (remaining d (heap s) op ctx ms))"
    if "fns = allFilterFns \<or> fns = requiredFilterFns"
      and "runFilterFns d (heap s) op ctx fns cs [] = Inr (ms, l)" for fns ms l
    using chain_remaining_nonempty [OF refl noEmpty that]
    by (simp add: filterServiceConfigs_success [OF that(2)] first_defined)
  obtain r1 op1 s1 where run1: "filterServiceConfigs d op ctx cs allFilterFns s = (r1, op1, s1)"
    by (cases "filterServiceConfigs d op ctx cs allFilterFns s") auto
  from filterServiceConfigs_defined [OF refl noEmpty, of allFilterFns op ctx] run1
  obtain c1 where c1: "r1 = Some c1" by auto
  have "formatsOf (heap s1) c = formatsOf (heap s) c" for c
    using filterServiceConfigs_formats [of d op ctx cs allFilterFns s c] run1 by simp
  with noEmpty have noEmpty1: "\<forall>c\<in>set cs. [] \<notin> set (formatsOf (heap s1) c)" by simp
  obtain r2 op2 s2 where run2: "filterServiceConfigs d op1 ctx cs requiredFilterFns s1 = (r2, op2, s2)"
    by (cases "filterServiceConfigs d op1 ctx cs requiredFilterFns s1") auto
  from filterServiceConfigs_defined [OF refl noEmpty1, of requiredFilterFns op1 ctx] run2
  obtain c2 where c2: "r2 = Some c2" by auto
  have "fst (chooseServiceConfig d op ctx cs s) \<noteq> Inl TypeError"
    using run1 run2 c1 c2
    by (simp add: chooseServiceConfig_def cloneDeep_def split: prod.splits)
  with one show ?thesis by blast
qed

theorem format_resolution_keeps_candidate_witness:
  "isMimeTypeAccepted specDeps ''image/png'' ''image/png''
   \<and> list_all (\<lambda>c. [] \<notin> set (formatsOf (heap exampleStore) c)) exampleCatalog
   \<and> runFilterFns specDeps (heap exampleStore) opPlain ctxPngAny allFilterFns exampleCatalog []
       = Inr ([1, 2, 3], [])
   \<and> remaining specDeps (heap exampleStore) opPlain ctxPngAny [1, 2, 3] = [2, 3]
   \<and> fst (filterServiceConfigs specDeps opPlain ctxPngAny exampleCatalog allFilterFns exampleStore)
       = Some 2
   \<and> fst (chooseServiceConfig specDeps opPlain ctxPngAny exampleCatalog exampleStore)
       \<noteq> Inl TypeError"
proof -
  have h1: "\<forall>f. isMimeTypeAccepted specDeps f f"
    by (simp add: specDeps_def spec_refl)
  have h2: "\<forall>c\<in>set exampleCatalog. [] \<notin> set (formatsOf (heap exampleStore) c)"
    by (simp add: example_defs formatsOf_def getIn_def)
  have c: "runFilterFns specDeps (heap exampleStore) opPlain ctxPngAny allFilterFns exampleCatalog []
       = Inr ([1, 2, 3], [])"
    by (simp add: model_defs example_defs more_example_defs)
  have r: "remaining specDeps (heap exampleStore) opPlain ctxPngAny [1, 2, 3] = [2, 3]"
    by (simp add: remaining_def model_defs example_defs more_example_defs)
  from format_resolution_keeps_candidate [OF h1 h2, of opPlain ctxPngAny] h1 h2 c r
  show ?thesis by (simp add: list_all_iff)
qed

section \<open>The strict match\<close>

lemma resolved_requires [simp]:
  "requiresSpatialSubsetting (resolved d h op ctx ms) = requiresSpatialSubsetting op"
  "requiresShapefileSubsetting (resolved d h op ctx ms) = requiresShapefileSubsetting op"
  "requiresVariableSubsetting (resolved d h op ctx ms) = requiresVariableSubsetting op"
  "requiresReprojection (resolved d h op ctx ms) = requiresReprojection op"
  by (simp_all add: resolved_def requiresSpatialSubsetting_def requiresShapefileSubsetting_def
      requiresVariableSubsetting_def requiresReprojection_def)

lemma chain_no_axes:
  assumes "filter (\<lambda>c. isCollectionMatch op (h c)) cs = [r]"
    and "\<not> requiresVariableSubsetting op" "\<not> requiresSpatialSubsetting op"
    and "\<not> requiresShapefileSubsetting op" "\<not> requiresReprojection op"
    and "\<not> requiresReformatting d op ctx"
  shows "runFilterFns d h op ctx allFilterFns cs [] = Inr ([r], [])"
  using assms
  by (simp add: allFilterFns_def filterCollectionMatches_def filterVariableSubsettingMatches_def
      filterSpatialSubsettingMatches_def filterShapefileSubsettingMatches_def
      filterReprojectionMatches_def filterOutputFormatMatches_def Let_def)

lemma subseq_singleton_nonempty:
  assumes "subseq xs [r]" "xs \<noteq> []"
  shows "xs = [r]"
proof -
  from assms(1) have "length xs \<le> 1" by (auto dest: list_emb_length)
  moreover from assms have "set xs \<subseteq> {r}" by (auto dest: subseq_mem)
  ultimately show ?thesis using assms(2)
    by (cases xs) auto
qed

text \<open>
  Claim C7. When the strict chain succeeds, \<open>chooseServiceConfig\<close> returns the first of
  the candidates that remain after format resolution, which are a sublist of the catalog
  in catalog order; the store is untouched (the result counts as a success when it is not
  named \<open>noOpService\<close>). In particular, when exactly one catalog entry covers the
  request's collections and the request requires no other axis, the call returns that very
  entry and leaves the store as it was. The matcher is taken to accept every media type as
  a pattern for itself, and output formats to be non-empty strings.
\<close>

theorem strict_success_first_candidate:
  assumes refl: "\<forall>f. isMimeTypeAccepted d f f"
    and noEmpty: "\<forall>c\<in>set cs. [] \<notin> set (formatsOf (heap s) c)"
  shows "(\<forall>ms l. runFilterFns d (heap s) op ctx allFilterFns cs [] = Inr (ms, l)
              \<and> name (heap s (hd (remaining d (heap s) op ctx ms))) \<noteq> ''noOpService'' \<longrightarrow>
            remaining d (heap s) op ctx ms \<noteq> []
            \<and> subseq (remaining d (heap s) op ctx ms) cs
            \<and> chooseServiceConfig d op ctx cs s
                = (Inr (hd (remaining d (heap s) op ctx ms)), resolved d (heap s) op ctx ms, s))
    \<and> (\<forall>r. filter (\<lambda>c. isCollectionMatch op (heap s c)) cs = [r]
              \<and> \<not> requiresVariableSubsetting op \<and> \<not> requiresSpatialSubsetting op
              \<and> \<not> requiresShapefileSubsetting op \<and> \<not> requiresReprojection op
              \<and> \<not> requiresReformatting d op ctx \<longrightarrow>
            fst (chooseServiceConfig d op ctx cs s) = Inr r
            \<and> snd (snd (chooseServiceConfig d op ctx cs s)) = s)"
proof (intro conjI allI impI)
  fix ms l
  assume a: "runFilterFns d (heap s) op ctx allFilterFns cs [] = Inr (ms, l)
     \<and> name (heap s (hd (remaining d (heap s) op ctx ms))) \<noteq> ''noOpService''"
  then have chain: "runFilterFns d (heap s) op ctx allFilterFns cs [] = Inr (ms, l)" by simp
  from chain_remaining_nonempty [OF refl noEmpty _ chain]
  have rem: "remaining d (heap s) op ctx ms \<noteq> []" "subseq (remaining d (heap s) op ctx ms) cs"
    by simp_all
  then show "remaining d (heap s) op ctx ms \<noteq> []" "subseq (remaining d (heap s) op ctx ms) cs"
    by simp_all
  show "chooseServiceConfig d op ctx cs s
      = (Inr (hd (remaining d (heap s) op ctx ms)), resolved d (heap s) op ctx ms, s)"
    using a rem(1)
    by (simp add: chooseServiceConfig_def filterServiceConfigs_success [OF chain] first_defined)
next
  fix r
  assume a: "filter (\<lambda>c. isCollectionMatch op (heap s c)) cs = [r]
     \<and> \<not> requiresVariableSubsetting op \<and> \<not> requiresSpatialSubsetting op
     \<and> \<not> requiresShapefileSubsetting op \<and> \<not> requiresReprojection op
     \<and> \<not> requiresReformatting d op ctx"
  then have chain: "runFilterFns d (heap s) op ctx allFilterFns cs [] = Inr ([r], [])"
    by (simp add: chain_no_axes)
  from chain_remaining_nonempty [OF refl noEmpty _ chain]
  have rem: "remaining d (heap s) op ctx [r] \<noteq> []" by simp
  have "subseq (remaining d (heap s) op ctx [r]) [r]"
    by (simp add: remaining_def subseq_selectServicesForFormat)
  from subseq_singleton_nonempty [OF this rem]
  have one: "remaining d (heap s) op ctx [r] = [r]" .
  have strict: "requiresStrictCapabilitiesMatching d (resolved d (heap s) op ctx [r]) ctx"
    using a by (simp add: requiresStrictCapabilitiesMatching_def)
  have "chooseServiceConfig d op ctx cs s = (Inr r, resolved d (heap s) op ctx [r], s)"
    using strict
    by (simp add: chooseServiceConfig_def filterServiceConfigs_success [OF chain] one first_def)
  then show "fst (chooseServiceConfig d op ctx cs s) = Inr r"
    "snd (snd (chooseServiceConfig d op ctx cs s)) = s"
    by simp_all
qed

theorem strict_success_first_candidate_witness:
  "runFilterFns specDeps (heap exampleStore) opPng noContext allFilterFns exampleCatalog []
     = Inr ([2, 3], [''reformatting to image/png''])
   \<and> remaining specDeps (heap exampleStore) opPng noContext [2, 3] = [2, 3]
   \<and> name (heap exampleStore 2) = ''B''
   \<and> chooseServiceConfig specDeps opPng noContext exampleCatalog exampleStore
       = (Inr 2, opPng, exampleStore)
   \<and> filter (\<lambda>c. isCollectionMatch opPlain (heap exampleStore c)) [2] = [2]
   \<and> \<not> requiresReformatting specDeps opPlain ctxPngAny
   \<and> fst (chooseServiceConfig specDeps opPlain ctxPngAny [2] exampleStore) = Inr 2
   \<and> snd (snd (chooseServiceConfig specDeps opPlain ctxPngAny [2] exampleStore)) = exampleStore"
proof -
  have h1: "\<forall>f. isMimeTypeAccepted specDeps f f"
    by (simp add: specDeps_def spec_refl)
  have h2: "\<forall>c\<in>set exampleCatalog. [] \<notin> set (formatsOf (heap exampleStore) c)"
    by (simp add: example_defs formatsOf_def getIn_def)
  have h3: "\<forall>c\<in>set [2]. [] \<notin> set (formatsOf (heap exampleStore) c)"
    by (simp add: example_defs formatsOf_def getIn_def)
  have c: "runFilterFns specDeps (heap exampleStore) opPng noContext allFilterFns exampleCatalog []
     = Inr ([2, 3], [''reformatting to image/png''])"
    by (simp add: model_defs example_defs more_example_defs)
  have r: "remaining specDeps (heap exampleStore) opPng noContext [2, 3] = [2, 3]"
    by (simp add: remaining_def model_defs example_defs more_example_defs)
  have o: "resolved specDeps (heap exampleStore) opPng noContext [2, 3] = opPng"
    by (simp add: resolved_def model_defs example_defs more_example_defs)
  have n: "name (heap exampleStore 2) = ''B''"
    by (simp add: example_defs)
  have a: "filter (\<lambda>c. isCollectionMatch opPlain (heap exampleStore c)) [2] = [2]"
    "\<not> requiresVariableSubsetting opPlain" "\<not> requiresSpatialSubsetting opPlain"
    "\<not> requiresShapefileSubsetting opPlain" "\<not> requiresReprojection opPlain"
    "\<not> requiresReformatting specDeps opPlain ctxPngAny"
    by (simp_all add: model_defs example_defs more_example_defs)
  from strict_success_first_candidate [OF h1 h2, of opPng noContext]
    strict_success_first_candidate [OF h1 h3, of opPlain ctxPngAny] c r o n a
  show ?thesis by simp
qed

section \<open>Steps that ignore the output format\<close>

lemma requires_outputFormat_update [simp]:
  "requiresSpatialSubsetting (op\<lparr>outputFormat := x\<rparr>) = requiresSpatialSubsetting op"
  "requiresShapefileSubsetting (op\<lparr>outputFormat := x\<rparr>) = requiresShapefileSubsetting op"
  "requiresVariableSubsetting (op\<lparr>outputFormat := x\<rparr>) = requiresVariableSubsetting op"
  "requiresReprojection (op\<lparr>outputFormat := x\<rparr>) = requiresReprojection op"
  "isCollectionMatch (op\<lparr>outputFormat := x\<rparr>) c = isCollectionMatch op c"
  by (simp_all add: requiresSpatialSubsetting_def requiresShapefileSubsetting_def
      requiresVariableSubsetting_def requiresReprojection_def isCollectionMatch_def)

lemma formatBlind_filters:
  "formatBlind filterCollectionMatches" "formatBlind filterVariableSubsettingMatches"
  "formatBlind filterSpatialSubsettingMatches" "formatBlind filterShapefileSubsettingMatches"
  "formatBlind filterReprojectionMatches"
  by (simp_all add: formatBlind_def filterCollectionMatches_def filterVariableSubsettingMatches_def
      filterSpatialSubsettingMatches_def filterShapefileSubsettingMatches_def
      filterReprojectionMatches_def newUnsupportedOperation_def Let_def)

lemma runFilterFns_blind:
  assumes "\<forall>f\<in>set fns. formatBlind f"
  shows "runFilterFns d h (op\<lparr>outputFormat := x\<rparr>) ctx fns cs log =
        (case runFilterFns d h op ctx fns cs log of
           Inl e \<Rightarrow> Inl (e\<lparr>operation := op\<lparr>outputFormat := x\<rparr>\<rparr>)
         | Inr r \<Rightarrow> Inr r)"
  using assms
proof (induction fns arbitrary: cs log)
  case Nil
  then show ?case by simp
next
  case (Cons f fns)
  then have f: "formatBlind f" and rest: "\<forall>g\<in>set fns. formatBlind g" by simp_all
  from f have step: "f d h (op\<lparr>outputFormat := x\<rparr>) ctx cs log =
        (case f d h op ctx cs log of
           Inl e \<Rightarrow> Inl (e\<lparr>operation := op\<lparr>outputFormat := x\<rparr>\<rparr>)
         | Inr r \<Rightarrow> Inr r)"
    unfolding formatBlind_def by blast
  show ?case
    by (cases "f d h op ctx cs log") (auto simp add: step Cons.IH [OF rest])
qed

lemma preFns_blind:
  "\<forall>f\<in>set strictPreFns. formatBlind f" "\<forall>f\<in>set reducedPreFns. formatBlind f"
  "\<forall>f\<in>set strictPreFns. goodStep f" "\<forall>f\<in>set reducedPreFns. goodStep f"
  by (simp_all add: strictPreFns_def reducedPreFns_def formatBlind_filters goodStep_filters)

lemma find_mono:
  assumes "find Q xs = Some p" "\<And>x. Q' x \<Longrightarrow> Q x" "Q' p"
  shows "find Q' xs = Some p"
  using assms by (induction xs) (auto split: if_splits)

lemma selectServicesForFormat_hd:
  assumes "cs \<noteq> []" "supportsFormat d h f (hd cs)"
  shows "selectServicesForFormat d h f cs \<noteq> [] \<and> hd (selectServicesForFormat d h f cs) = hd cs"
  using assms by (cases cs) (simp_all add: selectServicesForFormat_filter)

text \<open>Resolving again on the candidates that support the resolved format gives that format.\<close>

lemma loop_fixed:
  assumes refl: "\<forall>f. isMimeTypeAccepted d f f"
    and noEmpty: "\<forall>c\<in>set N. [] \<notin> set (formatsOf h c)"
    and falsy: "\<not> truthy fmt0"
    and res: "truthy (selectFormatLoop d h ps N fmt0)"
  shows "selectFormatLoop d h ps
           (selectServicesForFormat d h (the (selectFormatLoop d h ps N fmt0)) N) fmt0
         = selectFormatLoop d h ps N fmt0"
proof -
  from loop_format_supported [OF refl noEmpty falsy res] obtain p f where
    ne: "selectServicesForFormat d h p N \<noteq> []"
    and fp: "find (\<lambda>q. selectServicesForFormat d h q N \<noteq> []) ps = Some p"
    and eq: "selectFormatLoop d h ps N fmt0 = Some f"
    and ff: "find (\<lambda>g. isMimeTypeAccepted d g p) (formatsOf h (hd (selectServicesForFormat d h p N))) = Some f"
    and sup: "supportsFormat d h f (hd (selectServicesForFormat d h p N))"
    by blast
  let ?M = "selectServicesForFormat d h f N"
  have comm: "selectServicesForFormat d h q ?M
      = selectServicesForFormat d h f (selectServicesForFormat d h q N)" for q
    by (rule selectServicesForFormat_commute)
  from selectServicesForFormat_hd [OF ne sup]
  have pM: "selectServicesForFormat d h p ?M \<noteq> []"
    "hd (selectServicesForFormat d h p ?M) = hd (selectServicesForFormat d h p N)"
    by (simp_all add: comm)
  have "find (\<lambda>q. selectServicesForFormat d h q ?M \<noteq> []) ps = Some p"
  proof (rule find_mono [OF fp])
    fix q assume "selectServicesForFormat d h q ?M \<noteq> []"
    then show "selectServicesForFormat d h q N \<noteq> []"
      by (auto simp add: comm selectServicesForFormat_filter filter_empty_conv)
  next
    show "selectServicesForFormat d h p ?M \<noteq> []" by (rule pM(1))
  qed
  then have "selectFormatLoop d h ps ?M fmt0 = Some f"
    by (simp add: selectFormatLoop_find [OF falsy] pM(2) ff)
  with eq show ?thesis by simp
qed

lemma requiresReformatting_explicit:
  "truthy x \<Longrightarrow> requiresReformatting d (op\<lparr>outputFormat := x\<rparr>) ctx"
  by (simp add: requiresReformatting_def)

lemma selectFormat_explicit:
  "truthy x \<Longrightarrow> selectFormat d h (op\<lparr>outputFormat := x\<rparr>) ctx cs = x"
  by (simp add: selectFormat_alt)

lemma output_step_explicit:
  assumes "truthy x"
  shows "filterOutputFormatMatches d h (op\<lparr>outputFormat := x\<rparr>) ctx N l5 =
     (if selectServicesForFormat d h (the x) N = []
      then Inl (newUnsupportedOperation (op\<lparr>outputFormat := x\<rparr>)
                  (l5 @ [''reformatting to '' @ listToText d [the x] OR]))
      else Inr (selectServicesForFormat d h (the x) N,
                l5 @ [''reformatting to '' @ listToText d [the x] OR]))"
  using assms
  by (simp add: filterOutputFormatMatches_def requiresReformatting_explicit
      selectFormat_explicit Let_def)

text \<open>
  A run that succeeded succeeds again on the operation it resolved, with the same
  remaining candidates.
\<close>

lemma stable_success:
  assumes refl: "\<forall>f. isMimeTypeAccepted d f f"
    and noEmpty: "\<forall>c\<in>set cs. [] \<notin> set (formatsOf h c)"
    and fns: "fns = allFilterFns \<or> fns = requiredFilterFns"
    and chain: "runFilterFns d h op ctx fns cs [] = Inr (ms, l)"
  shows "\<exists>ms' l'. runFilterFns d h (resolved d h op ctx ms) ctx fns cs [] = Inr (ms', l')
     \<and> remaining d h (resolved d h op ctx ms) ctx ms' = remaining d h op ctx ms
     \<and> resolved d h (resolved d h op ctx ms) ctx ms' = resolved d h op ctx ms"
proof (cases "truthy (selectFormat d h op ctx ms)")
  case False
  then have "resolved d h op ctx ms = op" by (simp add: resolved_def)
  with chain show ?thesis by auto
next
  case True
  let ?fmt = "selectFormat d h op ctx ms"
  let ?op' = "op\<lparr>outputFormat := ?fmt\<rparr>"
  have res: "resolved d h op ctx ms = ?op'" using True by (simp add: resolved_def)
  from fns obtain pre where pre: "fns = pre @ [filterOutputFormatMatches]"
    "\<forall>f\<in>set pre. goodStep f" "\<forall>f\<in>set pre. formatBlind f"
    by (auto simp add: filterFns_split preFns_blind)
  from chain obtain N l5 where
    N: "runFilterFns d h op ctx pre cs [] = Inr (N, l5)"
    and step: "filterOutputFormatMatches d h op ctx N l5 = Inr (ms, l)"
    by (auto simp add: pre(1) runFilterFns_snoc split: sum.splits)
  from runFilterFns_goodSteps [OF pre(2) N] have "subseq N cs" by simp
  then have "set N \<subseteq> set cs" by (auto dest: subseq_mem)
  with noEmpty have neN: "\<forall>c\<in>set N. [] \<notin> set (formatsOf h c)" by auto
  have N': "runFilterFns d h ?op' ctx pre cs [] = Inr (N, l5)"
    by (simp add: runFilterFns_blind [OF pre(3)] N)
  from chain_remaining_nonempty [OF refl noEmpty fns chain] True
  have rem: "selectServicesForFormat d h (the ?fmt) ms \<noteq> []"
    by (simp add: remaining_def)
  have same: "selectServicesForFormat d h (the ?fmt) N = selectServicesForFormat d h (the ?fmt) ms"
  proof (cases "requiresReformatting d op ctx")
    case False
    with output_step_Inr [OF step] show ?thesis by simp
  next
    case reform: True
    with output_step_Inr [OF step] have
      f0: "truthy (selectFormat d h op ctx N)"
      and ms: "ms = selectServicesForFormat d h (the (selectFormat d h op ctx N)) N"
      by simp_all
    have "?fmt = selectFormat d h op ctx N"
    proof (cases "truthy (outputFormat op)")
      case True
      then show ?thesis by (simp add: selectFormat_alt)
    next
      case False
      with f0 have t: "truthy (selectFormatLoop d h (patternsOf ctx) N (outputFormat op))"
        by (simp add: selectFormat_alt)
      from loop_fixed [OF refl neN False t] False ms show ?thesis
        by (simp add: selectFormat_alt)
    qed
    with ms show ?thesis by (simp add: selectServicesForFormat_idem)
  qed
  have out: "filterOutputFormatMatches d h ?op' ctx N l5 =
      Inr (selectServicesForFormat d h (the ?fmt) ms,
           l5 @ [''reformatting to '' @ listToText d [the ?fmt] OR])"
    using rem by (simp add: output_step_explicit [OF True] same)
  have run: "runFilterFns d h ?op' ctx fns cs [] =
      Inr (selectServicesForFormat d h (the ?fmt) ms,
           l5 @ [''reformatting to '' @ listToText d [the ?fmt] OR])"
    by (simp add: pre(1) runFilterFns_snoc N' out)
  have sel: "selectFormat d h ?op' ctx xs = ?fmt" for xs
    by (rule selectFormat_explicit [OF True])
  have "remaining d h ?op' ctx (selectServicesForFormat d h (the ?fmt) ms) = remaining d h op ctx ms"
    using True by (simp add: remaining_def sel selectServicesForFormat_idem)
  moreover have "resolved d h ?op' ctx (selectServicesForFormat d h (the ?fmt) ms) = ?op'"
    using True by (simp add: resolved_def sel)
  ultimately show ?thesis using run res by auto
qed

text \<open>
  A strict chain that threw throws again on the operation that the reduced run resolved.
\<close>

lemma failure_persists:
  assumes refl: "\<forall>f. isMimeTypeAccepted d f f"
    and trans: "\<forall>g f p. isMimeTypeAccepted d g f \<and> isMimeTypeAccepted d f p \<longrightarrow> isMimeTypeAccepted d g p"
    and noEmpty: "\<forall>c\<in>set cs. [] \<notin> set (formatsOf h c)"
    and strict: "runFilterFns d h op ctx allFilterFns cs [] = Inl e"
    and reduced: "runFilterFns d h op ctx requiredFilterFns cs [] = Inr (ms, l)"
  shows "\<exists>e'. runFilterFns d h (resolved d h op ctx ms) ctx allFilterFns cs [] = Inl e'"
proof (cases "truthy (selectFormat d h op ctx ms) \<and> \<not> truthy (outputFormat op)")
  case False
  have "resolved d h op ctx ms = op"
  proof (cases "truthy (selectFormat d h op ctx ms)")
    case True
    with False have "truthy (outputFormat op)" by simp
    then have "selectFormat d h op ctx ms = outputFormat op" by (simp add: selectFormat_alt)
    then show ?thesis by (simp add: resolved_def)
  next
    case False
    then show ?thesis by (simp add: resolved_def)
  qed
  with strict show ?thesis by auto
next
  case True
  let ?fmt = "selectFormat d h op ctx ms"
  let ?op' = "op\<lparr>outputFormat := ?fmt\<rparr>"
  from True have tf: "truthy ?fmt" and falsy: "\<not> truthy (outputFormat op)" by simp_all
  have res: "resolved d h op ctx ms = ?op'" using tf by (simp add: resolved_def)
  have subR: "subseq ms cs" using requiredFilterFns_Inr [OF reduced] by simp
  then have "set ms \<subseteq> set cs" by (auto dest: subseq_mem)
  with noEmpty have neR: "\<forall>c\<in>set ms. [] \<notin> set (formatsOf h c)" by auto
  from tf falsy have tl: "truthy (selectFormatLoop d h (patternsOf ctx) ms (outputFormat op))"
    by (simp add: selectFormat_alt)
  from loop_format_supported [OF refl neR falsy tl] obtain p f where
    p: "p \<in> set (patternsOf ctx)"
    and f: "selectFormatLoop d h (patternsOf ctx) ms (outputFormat op) = Some f"
    and fp: "isMimeTypeAccepted d f p"
    by blast
  from f falsy have fmt: "?fmt = Some f" by (simp add: selectFormat_alt)
  show ?thesis
  proof (cases "runFilterFns d h op ctx strictPreFns cs []")
    case (Inl e0)
    then show ?thesis
      by (simp add: res filterFns_split runFilterFns_snoc runFilterFns_blind [OF preFns_blind(1)])
  next
    case (Inr b)
    then obtain N l5 where N: "runFilterFns d h op ctx strictPreFns cs [] = Inr (N, l5)"
      by (cases b) simp
    from runFilterFns_goodSteps [OF preFns_blind(3) N] have "subseq N cs" by simp
    then have "set N \<subseteq> set cs" by (auto dest: subseq_mem)
    with noEmpty have neN: "\<forall>c\<in>set N. [] \<notin> set (formatsOf h c)" by auto
    from strict N obtain e1 where out: "filterOutputFormatMatches d h op ctx N l5 = Inl e1"
      by (auto simp add: filterFns_split runFilterFns_snoc)
    have none: "selectServicesForFormat d h q N = []" if "q \<in> set (patternsOf ctx)" for q
    proof (rule ccontr)
      assume a: "selectServicesForFormat d h q N \<noteq> []"
      then have "find (\<lambda>q. selectServicesForFormat d h q N \<noteq> []) (patternsOf ctx) \<noteq> None"
        using that by (auto simp add: find_None_iff)
      then obtain q' where q': "find (\<lambda>q. selectServicesForFormat d h q N \<noteq> []) (patternsOf ctx) = Some q'"
        by auto
      then have "selectServicesForFormat d h q' N \<noteq> []" by (auto simp add: find_Some_iff)
      from supported_hd [OF this] q'
      have tN: "truthy (selectFormatLoop d h (patternsOf ctx) N (outputFormat op))"
        by (simp add: selectFormatLoop_find [OF falsy])
      from loop_narrowing_nonempty [OF refl neN falsy tN]
      have "selectServicesForFormat d h
              (the (selectFormatLoop d h (patternsOf ctx) N (outputFormat op))) N \<noteq> []" .
      with out tN falsy show False
        by (auto simp add: filterOutputFormatMatches_def Let_def selectFormat_alt
            selectServicesForFormat_filter split: if_splits)
    qed
    have empty: "selectServicesForFormat d h f N = []"
    proof (rule ccontr)
      assume "selectServicesForFormat d h f N \<noteq> []"
      then obtain c where c: "c \<in> set N" "supportsFormat d h f c"
        by (auto simp add: selectServicesForFormat_filter filter_empty_conv)
      from neN c(1) have nec: "[] \<notin> set (formatsOf h c)" by simp
      from c(2) obtain g where g: "g \<in> set (formatsOf h c)" "isMimeTypeAccepted d g f"
        by (auto simp add: supportsFormat_iff [OF nec])
      from trans g(2) fp have "isMimeTypeAccepted d g p" by blast
      with g(1) have "supportsFormat d h p c" by (auto simp add: supportsFormat_iff [OF nec])
      with c(1) have "selectServicesForFormat d h p N \<noteq> []"
        by (auto simp add: selectServicesForFormat_filter filter_empty_conv)
      with none [OF p] show False by simp
    qed
    have "filterOutputFormatMatches d h ?op' ctx N l5 =
        Inl (newUnsupportedOperation ?op' (l5 @ [''reformatting to '' @ listToText d [the ?fmt] OR]))"
      using output_step_explicit [OF tf, of d h op ctx N l5] empty fmt by simp
    then show ?thesis
      by (simp add: res filterFns_split runFilterFns_snoc runFilterFns_blind [OF preFns_blind(1)] N)
  qed
qed

lemma permits_resolved:
  assumes "permitsDegradedMatch d op ctx"
  shows "permitsDegradedMatch d (resolved d h op ctx ms) ctx"
proof (cases "truthy (selectFormat d h op ctx ms)")
  case True
  with assms show ?thesis
    by (simp add: permitsDegradedMatch_def resolved_def requiresReformatting_explicit)
next
  case False
  with assms show ?thesis by (simp add: resolved_def)
qed

section \<open>Steps read the store at their candidates only\<close>

lemma agree_selectServicesForFormat:
  assumes "\<forall>c\<in>set cs. h' c = h c"
  shows "selectServicesForFormat d h' p cs = selectServicesForFormat d h p cs"
  unfolding selectServicesForFormat_def using assms by (intro filter_cong refl) simp

lemma agree_selectFormatLoop:
  assumes "\<forall>c\<in>set cs. h' c = h c"
  shows "selectFormatLoop d h' ps cs fmt = selectFormatLoop d h ps cs fmt"
proof (induction ps arbitrary: fmt)
  case Nil
  then show ?case by simp
next
  case (Cons p ps)
  have "h' (hd (selectServicesForFormat d h p cs)) = h (hd (selectServicesForFormat d h p cs))"
    if "selectServicesForFormat d h p cs \<noteq> []"
  proof -
    from that have "hd (selectServicesForFormat d h p cs) \<in> set (selectServicesForFormat d h p cs)"
      by simp
    then have "hd (selectServicesForFormat d h p cs) \<in> set cs"
      by (simp add: selectServicesForFormat_def)
    with assms show ?thesis by simp
  qed
  then show ?case
    by (simp add: agree_selectServicesForFormat [OF assms] Cons.IH Let_def)
qed

lemma agree_selectFormat:
  assumes "\<forall>c\<in>set cs. h' c = h c"
  shows "selectFormat d h' op ctx cs = selectFormat d h op ctx cs"
  by (simp add: selectFormat_def agree_selectFormatLoop [OF assms])

lemma agree_remaining:
  assumes "\<forall>c\<in>set cs. h' c = h c"
  shows "remaining d h' op ctx cs = remaining d h op ctx cs"
    "resolved d h' op ctx cs = resolved d h op ctx cs"
  by (simp_all add: remaining_def resolved_def agree_selectFormat [OF assms]
      agree_selectServicesForFormat [OF assms])

lemma agreeStep_filters:
  "agreeStep filterCollectionMatches" "agreeStep filterVariableSubsettingMatches"
  "agreeStep filterSpatialSubsettingMatches" "agreeStep filterShapefileSubsettingMatches"
  "agreeStep filterReprojectionMatches" "agreeStep filterOutputFormatMatches"
proof -
  show "agreeStep filterCollectionMatches"
    unfolding agreeStep_def filterCollectionMatches_def
    by (intro allI impI) (simp cong: filter_cong)
  show "agreeStep filterVariableSubsettingMatches"
    unfolding agreeStep_def filterVariableSubsettingMatches_def supportsVariableSubsetting_def
    by (intro allI impI) (simp cong: filter_cong)
  show "agreeStep filterSpatialSubsettingMatches"
    unfolding agreeStep_def filterSpatialSubsettingMatches_def supportsSpatialSubsetting_def
    by (intro allI impI) (simp cong: filter_cong)
  show "agreeStep filterShapefileSubsettingMatches"
    unfolding agreeStep_def filterShapefileSubsettingMatches_def supportsShapefileSubsetting_def
    by (intro allI impI) (simp cong: filter_cong)
  show "agreeStep filterReprojectionMatches"
    unfolding agreeStep_def filterReprojectionMatches_def supportsReprojection_def
    by (intro allI impI) (simp cong: filter_cong)
  show "agreeStep filterOutputFormatMatches"
    unfolding agreeStep_def
  proof (intro allI impI)
    fix d and h h' :: "ref \<Rightarrow> ServiceConfig" and op ctx cs log
    assume a: "\<forall>c\<in>set cs. h' c = h c"
    show "filterOutputFormatMatches d h' op ctx cs log = filterOutputFormatMatches d h op ctx cs log"
      by (simp add: filterOutputFormatMatches_def agree_selectFormat [OF a]
          agree_selectServicesForFormat [OF a] Let_def)
  qed
qed

lemma agree_runFilterFns:
  assumes "\<forall>f\<in>set fns. goodStep f \<and> agreeStep f"
    and "\<forall>c\<in>set cs. h' c = h c"
  shows "runFilterFns d h' op ctx fns cs log = runFilterFns d h op ctx fns cs log"
  using assms
proof (induction fns arbitrary: cs log)
  case Nil
  then show ?case by simp
next
  case (Cons f fns)
  from Cons.prems(1) have f: "goodStep f" "agreeStep f"
    and rest: "\<forall>g\<in>set fns. goodStep g \<and> agreeStep g" by simp_all
  from f(2) Cons.prems(2) have step: "f d h' op ctx cs log = f d h op ctx cs log"
    unfolding agreeStep_def by blast
  show ?case
  proof (cases "f d h op ctx cs log")
    case (Inl e)
    with step show ?thesis by simp
  next
    case (Inr b)
    then obtain ms l where r: "f d h op ctx cs log = Inr (ms, l)" by (cases b) simp
    with f(1) have "subseq ms cs" unfolding goodStep_def by blast
    then have "\<forall>c\<in>set ms. h' c = h c" using Cons.prems(2) by (auto dest: subseq_mem)
    from Cons.IH [OF rest this] step r show ?thesis by simp
  qed
qed

lemma agree_chains:
  assumes "\<forall>c\<in>set cs. h' c = h c"
  shows "runFilterFns d h' op ctx allFilterFns cs log = runFilterFns d h op ctx allFilterFns cs log"
    "runFilterFns d h' op ctx requiredFilterFns cs log = runFilterFns d h op ctx requiredFilterFns cs log"
  by (rule agree_runFilterFns [OF _ assms],
      simp add: allFilterFns_def requiredFilterFns_def goodStep_filters agreeStep_filters)+

section \<open>Calling twice\<close>

lemma sameCaps_noMatchSignal:
  assumes "sameCaps h h'"
  shows "noMatchSignal d h' op ctx cs = noMatchSignal d h op ctx cs"
  by (simp add: noMatchSignal_def sameCaps_allFilterFns [OF assms]
      sameCaps_requiredFilterFns [OF assms] cong: sum.case_cong if_cong)

lemma sameCaps_remaining:
  assumes "sameCaps h h'"
  shows "remaining d h' op ctx ms = remaining d h op ctx ms"
    "resolved d h' op ctx ms = resolved d h op ctx ms"
  by (simp_all add: remaining_def resolved_def sameCaps_selectFormat [OF assms]
      sameCaps_selectServicesForFormat [OF assms])

lemma hd_remaining_mem:
  assumes "remaining d h op ctx ms \<noteq> []" "subseq (remaining d h op ctx ms) cs"
  shows "hd (remaining d h op ctx ms) \<in> set cs"
  using assms by (auto dest: subseq_mem [where x = "hd (remaining d h op ctx ms)"])

text \<open>The three ways a call ends, for a catalog none of whose entries is named like the sentinel.\<close>

lemma choose_strict_success:
  assumes refl: "\<forall>f. isMimeTypeAccepted d f f"
    and noEmpty: "\<forall>c\<in>set cs. [] \<notin> set (formatsOf (heap s) c)"
    and names: "\<forall>c\<in>set cs. name (heap s c) \<noteq> ''noOpService''"
    and chain: "runFilterFns d (heap s) op ctx allFilterFns cs [] = Inr (ms, l)"
  shows "chooseServiceConfig d op ctx cs s
      = (Inr (hd (remaining d (heap s) op ctx ms)), resolved d (heap s) op ctx ms, s)
    \<and> hd (remaining d (heap s) op ctx ms) \<in> set cs"
proof -
  from chain_remaining_nonempty [OF refl noEmpty _ chain]
  have rem: "remaining d (heap s) op ctx ms \<noteq> []" "subseq (remaining d (heap s) op ctx ms) cs"
    by simp_all
  from hd_remaining_mem [OF rem] have mem: "hd (remaining d (heap s) op ctx ms) \<in> set cs" .
  with names have "name (heap s (hd (remaining d (heap s) op ctx ms))) \<noteq> ''noOpService''"
    by simp
  with rem(1) mem show ?thesis
    by (simp add: chooseServiceConfig_def filterServiceConfigs_success [OF chain] first_defined)
qed

lemma choose_degraded_success:
  assumes refl: "\<forall>f. isMimeTypeAccepted d f f"
    and noEmpty: "\<forall>c\<in>set cs. [] \<notin> set (formatsOf (heap s) c)"
    and names: "\<forall>c\<in>set cs. name (heap s c) \<noteq> ''noOpService''"
    and nm: "name (heap s noOpRef) = ''noOpService''"
    and strict: "runFilterFns d (heap s) op ctx allFilterFns cs [] = Inl e"
    and permits: "permitsDegradedMatch d op ctx"
    and reduced: "runFilterFns d (heap s) op ctx requiredFilterFns cs [] = Inr (ms, l)"
  shows "\<exists>s1. chooseServiceConfig d op ctx cs s
        = (Inr (nextRef s), resolved d (heap s) op ctx ms, s1)
    \<and> hd (remaining d (heap s) op ctx ms) \<in> set cs
    \<and> heap s1 (nextRef s)
        = (heap s (hd (remaining d (heap s) op ctx ms)))\<lparr>message := Some bestEffortMessage\<rparr>
    \<and> (\<forall>c. c \<noteq> noOpRef \<and> c \<noteq> nextRef s \<longrightarrow> heap s1 c = heap s c)
    \<and> (noOpRef \<noteq> nextRef s \<longrightarrow> name (heap s1 noOpRef) = ''noOpService'')
    \<and> nextRef s1 = Suc (nextRef s)"
proof -
  let ?s1 = "noMatchStore d e s"
  let ?r = "hd (remaining d (heap s) op ctx ms)"
  have run1: "filterServiceConfigs d op ctx cs allFilterFns s = (Some noOpRef, op, ?s1)"
    using strict by (rule filterServiceConfigs_Inl)
  have sc: "sameCaps (heap s) (heap ?s1)" by (rule sameCaps_noMatchStore)
  have chain1: "runFilterFns d (heap ?s1) op ctx requiredFilterFns cs [] = Inr (ms, l)"
    using reduced by (simp add: sameCaps_requiredFilterFns [OF sc])
  from chain_remaining_nonempty [OF refl noEmpty _ reduced]
  have rem: "remaining d (heap s) op ctx ms \<noteq> []" "subseq (remaining d (heap s) op ctx ms) cs"
    by simp_all
  from hd_remaining_mem [OF rem] have mem: "?r \<in> set cs" .
  with names have nr: "name (heap s ?r) \<noteq> ''noOpService''" by simp
  with nm have r0: "?r \<noteq> noOpRef" by auto
  have run2: "filterServiceConfigs d op ctx cs requiredFilterFns ?s1
      = (Some ?r, resolved d (heap s) op ctx ms, ?s1)"
    using rem(1)
    by (simp add: filterServiceConfigs_success [OF chain1] sameCaps_remaining [OF sc] first_defined)
  have call: "chooseServiceConfig d op ctx cs s =
      (Inr (nextRef s), resolved d (heap s) op ctx ms,
       ?s1\<lparr>heap := (heap ?s1)(nextRef s := (heap ?s1 ?r)\<lparr>message := Some bestEffortMessage\<rparr>),
           nextRef := Suc (nextRef s)\<rparr>)"
    using run1 run2 nr nm permits
    by (simp add: chooseServiceConfig_def strict_iff_not_permits cloneDeep_def)
  show ?thesis
    using mem r0 nm by (auto simp add: call)
qed

lemma outcome_simps:
  "outcome (Inr r, op', s') = Some (name (heap s' r), message (heap s' r))"
  by (simp add: outcome_def)

text \<open>
  Claim C8. Calling \<open>chooseServiceConfig\<close> a second time, with the operation as the
  first call left it (its output format possibly resolved), the same context and catalog,
  in the store as the first call left it, gives a result with the same service name and
  the same message as the first call's result, and neither call throws. The matcher is
  taken to be reflexive and transitive, output formats to be non-empty strings, and the
  catalog to hold allocated objects none of which is named \<open>noOpService\<close>.
\<close>

theorem choose_twice_same_outcome:
  assumes refl: "\<forall>f. isMimeTypeAccepted d f f"
    and trans: "\<forall>g f p. isMimeTypeAccepted d g f \<and> isMimeTypeAccepted d f p
                  \<longrightarrow> isMimeTypeAccepted d g p"
    and noEmpty: "\<forall>c\<in>set cs. [] \<notin> set (formatsOf (heap s) c)"
    and names: "\<forall>c\<in>set cs. name (heap s c) \<noteq> ''noOpService''"
    and alloc: "\<forall>c\<in>set cs. c < nextRef s"
    and nm: "name (heap s noOpRef) = ''noOpService''"
    and nalloc: "noOpRef < nextRef s"
  shows "outcome (chooseServiceConfig d (fst (snd (chooseServiceConfig d op ctx cs s))) ctx cs
                    (snd (snd (chooseServiceConfig d op ctx cs s))))
           = outcome (chooseServiceConfig d op ctx cs s)
    \<and> outcome (chooseServiceConfig d op ctx cs s) \<noteq> None"
proof (cases "runFilterFns d (heap s) op ctx allFilterFns cs []")
  case (Inr b)
  then obtain ms l where chain: "runFilterFns d (heap s) op ctx allFilterFns cs [] = Inr (ms, l)"
    by (cases b) simp
  from choose_strict_success [OF refl noEmpty names chain]
  have call1: "chooseServiceConfig d op ctx cs s
      = (Inr (hd (remaining d (heap s) op ctx ms)), resolved d (heap s) op ctx ms, s)"
    by simp
  from stable_success [OF refl noEmpty _ chain] obtain ms' l' where
    chain2: "runFilterFns d (heap s) (resolved d (heap s) op ctx ms) ctx allFilterFns cs [] = Inr (ms', l')"
    and rem2: "remaining d (heap s) (resolved d (heap s) op ctx ms) ctx ms' = remaining d (heap s) op ctx ms"
    by blast
  from choose_strict_success [OF refl noEmpty names chain2]
  have call2: "chooseServiceConfig d (resolved d (heap s) op ctx ms) ctx cs s
      = (Inr (hd (remaining d (heap s) op ctx ms)),
         resolved d (heap s) (resolved d (heap s) op ctx ms) ctx ms', s)"
    by (simp add: rem2)
  show ?thesis by (simp add: call1 call2 outcome_simps)
next
  case (Inl e1)
  show ?thesis
  proof (cases "noMatchSignal d (heap s) op ctx cs")
    case (Some e)
    from noMatch_call [OF nm Some]
    have call1: "chooseServiceConfig d op ctx cs s = (Inr noOpRef, op, noMatchStore d e s)" .
    have nm1: "name (heap (noMatchStore d e s) noOpRef) = ''noOpService''"
      using nm by simp
    have "noMatchSignal d (heap (noMatchStore d e s)) op ctx cs = Some e"
      using Some by (simp add: sameCaps_noMatchSignal [OF sameCaps_noMatchStore])
    from noMatch_call [OF nm1 this]
    have call2: "chooseServiceConfig d op ctx cs (noMatchStore d e s)
        = (Inr noOpRef, op, noMatchStore d e (noMatchStore d e s))" .
    show ?thesis using nm by (simp add: call1 call2 outcome_simps)
  next
    case None
    with Inl have permits: "permitsDegradedMatch d op ctx"
      by (auto simp add: noMatchSignal_def split: if_splits)
    with None Inl obtain ms l where
      reduced: "runFilterFns d (heap s) op ctx requiredFilterFns cs [] = Inr (ms, l)"
      by (auto simp add: noMatchSignal_def split: sum.splits)
    let ?r = "hd (remaining d (heap s) op ctx ms)"
    let ?op' = "resolved d (heap s) op ctx ms"
    from choose_degraded_success [OF refl noEmpty names nm Inl permits reduced]
    obtain s1 where
      call1: "chooseServiceConfig d op ctx cs s = (Inr (nextRef s), ?op', s1)"
      and mem: "?r \<in> set cs"
      and clone1: "heap s1 (nextRef s) = (heap s ?r)\<lparr>message := Some bestEffortMessage\<rparr>"
      and frame1: "\<forall>c. c \<noteq> noOpRef \<and> c \<noteq> nextRef s \<longrightarrow> heap s1 c = heap s c"
      and nm1': "noOpRef \<noteq> nextRef s \<longrightarrow> name (heap s1 noOpRef) = ''noOpService''"
      by blast
    from nalloc nm1' have nm1: "name (heap s1 noOpRef) = ''noOpService''" by simp
    have agree: "\<forall>c\<in>set cs. heap s1 c = heap s c"
    proof
      fix c assume c: "c \<in> set cs"
      with names nm have "c \<noteq> noOpRef" by auto
      moreover from alloc c have "c \<noteq> nextRef s" by auto
      ultimately show "heap s1 c = heap s c" using frame1 by simp
    qed
    then have noEmpty1: "\<forall>c\<in>set cs. [] \<notin> set (formatsOf (heap s1) c)"
      and names1: "\<forall>c\<in>set cs. name (heap s1 c) \<noteq> ''noOpService''"
      using noEmpty names by (simp_all add: formatsOf_def)
    from failure_persists [OF refl trans noEmpty Inl reduced] obtain e' where
      "runFilterFns d (heap s) ?op' ctx allFilterFns cs [] = Inl e'" by blast
    then have strict2: "runFilterFns d (heap s1) ?op' ctx allFilterFns cs [] = Inl e'"
      by (simp add: agree_chains [OF agree])
    from stable_success [OF refl noEmpty _ reduced] obtain ms' l' where
      red: "runFilterFns d (heap s) ?op' ctx requiredFilterFns cs [] = Inr (ms', l')"
      and rem2: "remaining d (heap s) ?op' ctx ms' = remaining d (heap s) op ctx ms"
      by blast
    from red have reduced2: "runFilterFns d (heap s1) ?op' ctx requiredFilterFns cs [] = Inr (ms', l')"
      by (simp add: agree_chains [OF agree])
    have "subseq ms' cs" using requiredFilterFns_Inr [OF red] by simp
    then have "\<forall>c\<in>set ms'. heap s1 c = heap s c" using agree by (auto dest: subseq_mem)
    then have "remaining d (heap s1) ?op' ctx ms' = remaining d (heap s) ?op' ctx ms'"
      by (rule agree_remaining)
    with rem2 have rem3: "remaining d (heap s1) ?op' ctx ms' = remaining d (heap s) op ctx ms"
      by simp
    from choose_degraded_success [OF refl noEmpty1 names1 nm1 strict2
        permits_resolved [OF permits] reduced2]
    obtain s2 where
      call2: "chooseServiceConfig d ?op' ctx cs s1
          = (Inr (nextRef s1), resolved d (heap s1) ?op' ctx ms', s2)"
      and clone2: "heap s2 (nextRef s1)
          = (heap s1 (hd (remaining d (heap s1) ?op' ctx ms')))\<lparr>message := Some bestEffortMessage\<rparr>"
      by blast
    from agree mem have "heap s1 ?r = heap s ?r" by simp
    with clone2 have clone2': "heap s2 (nextRef s1) = (heap s ?r)\<lparr>message := Some bestEffortMessage\<rparr>"
      by (simp add: rem3)
    show ?thesis by (simp add: call1 call2 outcome_simps clone1 clone2')
  qed
qed

theorem choose_twice_same_outcome_witness:
  "isMimeTypeAccepted specDeps ''image/png'' ''image/png''
   \<and> list_all (\<lambda>c. [] \<notin> set (formatsOf (heap exampleStore) c)
                    \<and> name (heap exampleStore c) \<noteq> ''noOpService''
                    \<and> c < nextRef exampleStore) exampleCatalog
   \<and> name (heap exampleStore noOpRef) = ''noOpService''
   \<and> noOpRef < nextRef exampleStore
   \<and> outcome (chooseServiceConfig specDeps opBboxNetcdf noContext exampleCatalog exampleStore)
       = Some (''A'', Some bestEffortMessage)
   \<and> outcome (chooseServiceConfig specDeps
                  (fst (snd (chooseServiceConfig specDeps opBboxNetcdf noContext exampleCatalog
                               exampleStore)))
                  noContext exampleCatalog
                  (snd (snd (chooseServiceConfig specDeps opBboxNetcdf noContext exampleCatalog
                               exampleStore))))
       = Some (''A'', Some bestEffortMessage)"
proof -
  have h1: "\<forall>f. isMimeTypeAccepted specDeps f f"
    by (simp add: specDeps_def spec_refl)
  have h2: "\<forall>g f p. isMimeTypeAccepted specDeps g f \<and> isMimeTypeAccepted specDeps f p
                  \<longrightarrow> isMimeTypeAccepted specDeps g p"
    by (auto simp add: specDeps_def intro: spec_trans)
  have h3: "\<forall>c\<in>set exampleCatalog. [] \<notin> set (formatsOf (heap exampleStore) c)"
    by (simp add: example_defs formatsOf_def getIn_def)
  have h4: "\<forall>c\<in>set exampleCatalog. name (heap exampleStore c) \<noteq> ''noOpService''"
    by (simp add: example_defs)
  have h5: "\<forall>c\<in>set exampleCatalog. c < nextRef exampleStore"
    by (simp add: example_defs)
  have h6: "name (heap exampleStore noOpRef) = ''noOpService''"
    by (simp add: example_defs)
  have h7: "noOpRef < nextRef exampleStore"
    by (simp add: example_defs)
  have v: "outcome (chooseServiceConfig specDeps opBboxNetcdf noContext exampleCatalog exampleStore)
       = Some (''A'', Some bestEffortMessage)"
    by (simp add: outcome_def model_defs example_defs)
  from choose_twice_same_outcome [OF h1 h2 h3 h4 h5 h6 h7, of opBboxNetcdf noContext]
    h1 h3 h4 h5 h6 h7 v
  show ?thesis by (simp add: list_all_iff)
qed

end
